theory Spec2Isabelle
  imports Complex_Main
begin

section \<open>Time-domain EM simulation: the time stepper and its factorization cache\<close>

text \<open>
  A shallow embedding of \<^verbatim>\<open>SimPEG/electromagnetics/time_domain/simulation.py\<close>:
  the four formulation classes, the forward stepper \<^verbatim>\<open>fields\<close>, the sensitivity loops
  \<^verbatim>\<open>Jvec\<close> and \<^verbatim>\<open>Jtvec\<close>, and the factorization caches.

  Python floats are idealised as reals. A numpy vector is a list of reals, a sparse
  matrix a list of rows; \<^verbatim>\<open>tocsr()\<close> only changes the storage format and is the
  identity here. Shapes are assumed to agree, as numpy would otherwise raise inside
  the arithmetic: the list operations below stop at the shorter operand.
\<close>

subsection \<open>Vectors, matrices and the Zero sentinel\<close>

type_synonym vec = "real list"
type_synonym mat = "real list list"

definition vadd :: "vec \<Rightarrow> vec \<Rightarrow> vec" where
  "vadd u v = map2 (+) u v"

definition vsub :: "vec \<Rightarrow> vec \<Rightarrow> vec" where
  "vsub u v = map2 (-) u v"

definition vneg :: "vec \<Rightarrow> vec" where
  "vneg u = map uminus u"

definition vscale :: "real \<Rightarrow> vec \<Rightarrow> vec" where
  "vscale c u = map ((*) c) u"

definition zeros :: "nat \<Rightarrow> vec" where
  "zeros n = replicate n 0"

definition dot :: "vec \<Rightarrow> vec \<Rightarrow> real" where
  "dot u v = sum_list (map2 (*) u v)"

definition mat_vec :: "mat \<Rightarrow> vec \<Rightarrow> vec" where
  "mat_vec A v = map (\<lambda>row. dot row v) A"

definition mat_T :: "mat \<Rightarrow> mat" where
  "mat_T A = transpose A"

definition mat_mul :: "mat \<Rightarrow> mat \<Rightarrow> mat" where
  "mat_mul A B = map (\<lambda>row. map (\<lambda>col. dot row col) (mat_T B)) A"

definition mat_add :: "mat \<Rightarrow> mat \<Rightarrow> mat" where
  "mat_add A B = map2 (map2 (+)) A B"

definition mat_scale :: "real \<Rightarrow> mat \<Rightarrow> mat" where
  "mat_scale c A = map (map ((*) c)) A"

definition speye :: "nat \<Rightarrow> mat" where
  "speye n = map (\<lambda>i. map (\<lambda>j. if i = j then 1 else 0) [0..<n]) [0..<n]"

definition sdiag :: "vec \<Rightarrow> mat" where
  "sdiag d = map (\<lambda>i. map (\<lambda>j. if i = j then d ! i else 0) [0..<length d]) [0..<length d]"

text \<open>
  \<^verbatim>\<open>Adc[0, 0] = Adc[0, 0] + 1.0\<close>: the update of one entry; on an empty matrix
  scipy raises IndexError, which \<^verbatim>\<open>getAdc\<close> below returns.
\<close>

definition bump00 :: "mat \<Rightarrow> mat option" where
  "bump00 A = (case A of
      (a # row) # rows \<Rightarrow> Some (((a + 1) # row) # rows)
    | _ \<Rightarrow> None)"

text \<open>
  \<^verbatim>\<open>SimPEG.utils.Zero\<close> is the sentinel for a contribution that is identically zero:
  adding it changes nothing, any product with it is Zero again.
  Modelled from the spec: the class \<^verbatim>\<open>Zero\<close> lives in \<^verbatim>\<open>SimPEG/utils\<close>, which is
  not among the sources; the spec calls it the sentinel for no-derivative cases whose
  downstream additions are no-ops.
\<close>

datatype zvec = Zero | Arr vec

fun zadd :: "zvec \<Rightarrow> zvec \<Rightarrow> zvec" where
  "zadd Zero y = y"
| "zadd x Zero = x"
| "zadd (Arr u) (Arr v) = Arr (vadd u v)"

fun zneg :: "zvec \<Rightarrow> zvec" where
  "zneg Zero = Zero"
| "zneg (Arr u) = Arr (vneg u)"

definition zsub :: "zvec \<Rightarrow> zvec \<Rightarrow> zvec" where
  "zsub x y = zadd x (zneg y)"

fun zscale :: "real \<Rightarrow> zvec \<Rightarrow> zvec" where
  "zscale c Zero = Zero"
| "zscale c (Arr u) = Arr (vscale c u)"

fun mat_zvec :: "mat \<Rightarrow> zvec \<Rightarrow> zvec" where
  "mat_zvec A Zero = Zero"
| "mat_zvec A (Arr u) = Arr (mat_vec A u)"

text \<open>\<^verbatim>\<open>column + z\<close> for a dense column and a possibly-Zero summand.\<close>

fun vadd_z :: "vec \<Rightarrow> zvec \<Rightarrow> vec" where
  "vadd_z u Zero = u"
| "vadd_z u (Arr v) = vadd u v"

fun vsub_z :: "vec \<Rightarrow> zvec \<Rightarrow> vec" where
  "vsub_z u Zero = u"
| "vsub_z u (Arr v) = vsub u v"

subsection \<open>Python errors and indexing\<close>

datatype error =
    AssertionError
  | AttributeError
  | IndexError
  | KeyError
  | NameError
  | TypeError
  | ValueError
  | NotImplementedError string

text \<open>Indexing a sequence with a Python int: negative indices count from the end.\<close>

definition py_get :: "'a list \<Rightarrow> int \<Rightarrow> error + 'a" where
  "py_get xs i =
     (let n = int (length xs); j = (if i < 0 then n + i else i)
      in if 0 \<le> j \<and> j < n then Inr (xs ! nat j) else Inl IndexError)"

text \<open>\<^verbatim>\<open>list.index(x)\<close>: the first position of \<^verbatim>\<open>x\<close>, ValueError when absent.\<close>

fun list_index :: "'a list \<Rightarrow> 'a \<Rightarrow> nat option" where
  "list_index [] x = None"
| "list_index (y # ys) x = (if y = x then Some 0 else map_option Suc (list_index ys x))"

text \<open>Sequencing of fallible steps: the first error aborts, as a raised exception does.\<close>

definition bind_err :: "error + 'a \<Rightarrow> ('a \<Rightarrow> error + 'b) \<Rightarrow> error + 'b" where
  "bind_err r k = (case r of Inl e \<Rightarrow> Inl e | Inr x \<Rightarrow> k x)"

fun for_each :: "('i \<Rightarrow> 'st \<Rightarrow> error + 'st) \<Rightarrow> 'i list \<Rightarrow> 'st \<Rightarrow> error + 'st" where
  "for_each body [] st = Inr st"
| "for_each body (i # is) st = bind_err (body i st) (for_each body is)"

subsection \<open>Collaborators: mesh, physical properties, receivers, sources\<close>

text \<open>
  The mesh operators, the model-dependent mass matrices with their derivatives, the
  sources and the linear solver are collaborators of the simulation, defined outside
  this file of the repository. They are fields of the records below and every theorem
  holds for all their values. A mass matrix is a function of the current model.
\<close>

record mesh =
  edge_curl :: mat
  nodal_gradient :: mat
  face_divergence :: mat
  cell_volumes :: vec
  n_faces :: nat
  n_edges :: nat

record physics =
  MeSigma :: "vec \<Rightarrow> mat"
  MeSigmaI :: "vec \<Rightarrow> mat"
  MfMui :: "vec \<Rightarrow> mat"
  MfRho :: "vec \<Rightarrow> mat"
  MfRhoI :: "vec \<Rightarrow> mat"
  MeMu :: "vec \<Rightarrow> mat"
  MeMuI :: "vec \<Rightarrow> mat"
  MeSigmaDeriv :: "vec \<Rightarrow> vec \<Rightarrow> vec \<Rightarrow> bool \<Rightarrow> zvec"
  MeSigmaIDeriv :: "vec \<Rightarrow> vec \<Rightarrow> vec \<Rightarrow> bool \<Rightarrow> zvec"
  MfRhoDeriv :: "vec \<Rightarrow> vec \<Rightarrow> vec \<Rightarrow> bool \<Rightarrow> zvec"
  MfRhoIDeriv :: "vec \<Rightarrow> vec \<Rightarrow> vec \<Rightarrow> bool \<Rightarrow> zvec"

text \<open>
  A receiver: its \<^verbatim>\<open>projField\<close> and the projection matrix that \<^verbatim>\<open>getP\<close> returns.
  \<^verbatim>\<open>BaseRx.evalDeriv\<close> multiplies by it, or by its transpose in adjoint mode.
\<close>

record receiver =
  projField :: string
  getP :: mat

definition rx_evalDeriv :: "receiver \<Rightarrow> vec \<Rightarrow> bool \<Rightarrow> vec" where
  "rx_evalDeriv rx v adjoint =
     (if \<not> adjoint then mat_vec (getP rx) v else mat_vec (mat_T (getP rx)) v)"

text \<open>
  A source: its type tag, its receivers, and what the simulation asks of it. Each
  function takes the current model first; \<^verbatim>\<open>Initial\<close> and \<^verbatim>\<open>InitialDeriv\<close> take
  the field type letter that \<^verbatim>\<open>getattr\<close> builds the method name from.
\<close>

record source =
  srcType :: string
  receiver_list :: "receiver list"
  src_eval :: "vec \<Rightarrow> real \<Rightarrow> zvec \<times> zvec"
  src_evalDeriv :: "vec \<Rightarrow> real \<Rightarrow> bool \<Rightarrow> (vec \<Rightarrow> zvec) \<times> (vec \<Rightarrow> zvec)"
  Initial :: "string \<Rightarrow> vec \<Rightarrow> zvec"
  InitialDeriv :: "string \<Rightarrow> vec \<Rightarrow> vec \<Rightarrow> zvec"

subsection \<open>The simulation object\<close>

datatype formulation =
    Simulation3DMagneticFluxDensity
  | Simulation3DElectricField
  | Simulation3DMagneticField
  | Simulation3DCurrentDensity

fun fieldType :: "formulation \<Rightarrow> string" where
  "fieldType Simulation3DMagneticFluxDensity = ''b''"
| "fieldType Simulation3DElectricField = ''e''"
| "fieldType Simulation3DMagneticField = ''h''"
| "fieldType Simulation3DCurrentDensity = ''j''"

fun formulation_tag :: "formulation \<Rightarrow> string" where
  "formulation_tag Simulation3DMagneticFluxDensity = ''EB''"
| "formulation_tag Simulation3DElectricField = ''EB''"
| "formulation_tag Simulation3DMagneticField = ''HJ''"
| "formulation_tag Simulation3DCurrentDensity = ''HJ''"

text \<open>
  A factorization object of the solver: the matrix it was built from and whether
  \<^verbatim>\<open>clean()\<close> has been called on it. Every factorization the solver ever returned
  stays in the list \<open>heap\<close> of the simulation; a Python reference to one is its index.
\<close>

record factorization =
  fmat :: mat
  cleaned :: bool

text \<open>
  The dictionaries \<^verbatim>\<open>Ainv\<close> and \<^verbatim>\<open>ATinv\<close> are association lists from a step length
  to a reference or \<^verbatim>\<open>None\<close>; the attribute itself is absent (\<open>None\<close>) until
  \<^verbatim>\<open>fields\<close> creates it. \<open>Adcinv_cache\<close> is the attribute \<^verbatim>\<open>_Adcinv\<close>.
  \<open>solve A b\<close> is what the solver computes when a factorization of \<open>A\<close> is applied
  to \<open>b\<close>. \<open>fieldsDeriv name\<close> and \<open>fieldsDerivT name\<close> are the methods
  \<^verbatim>\<open>_<name>Deriv\<close> of the fields object in forward and in adjoint mode (\<open>None\<close> when
  \<^verbatim>\<open>getattr\<close> finds none), \<open>storage_size name\<close> the number of rows the fields object
  stores for that field; they come from the fields classes, which are collaborators too.
\<close>

record simulation =
  sim_class :: formulation
  mesh :: mesh
  physics :: physics
  survey :: "source list option"
  solve :: "mat \<Rightarrow> vec \<Rightarrow> vec"
  fieldsDeriv :: "string \<Rightarrow> (vec \<Rightarrow> nat \<Rightarrow> source \<Rightarrow> vec \<Rightarrow> vec \<Rightarrow> zvec) option"
  fieldsDerivT :: "string \<Rightarrow> (vec \<Rightarrow> nat \<Rightarrow> source \<Rightarrow> vec \<Rightarrow> zvec \<times> zvec) option"
  storage_size :: "string \<Rightarrow> nat"
  time_steps :: "real list"
  t0 :: real
  dt_threshold :: real
  forward_only :: bool
  makeASymmetric :: bool
  model :: vec
  heap :: "factorization list"
  Ainv :: "(real \<times> nat option) list option"
  ATinv :: "(real \<times> nat option) list option"
  Adcinv_cache :: "nat option"

text \<open>The property \<^verbatim>\<open>survey\<close> raises AttributeError when none is attached.\<close>

definition the_survey :: "simulation \<Rightarrow> error + source list" where
  "the_survey s = (case survey s of None \<Rightarrow> Inl AttributeError | Some srcs \<Rightarrow> Inr srcs)"

definition nT :: "simulation \<Rightarrow> int" where
  "nT s = int (length (time_steps s))"

text \<open>
  Modelled from the spec: \<^verbatim>\<open>times\<close> belongs to \<^verbatim>\<open>BaseTimeSimulation\<close>, which is not
  among the sources; the spec has the \<open>n\<close> step lengths define the \<open>n + 1\<close> time
  nodes \<open>t\<^sub>0 .. t\<^sub>n\<close>.
\<close>

fun time_nodes :: "real \<Rightarrow> real list \<Rightarrow> real list" where
  "time_nodes t [] = [t]"
| "time_nodes t (d # ds) = t # time_nodes (t + d) ds"

definition times :: "simulation \<Rightarrow> real list" where
  "times s = time_nodes (t0 s) (time_steps s)"

text \<open>
  \<^verbatim>\<open>self.solver(A, **self.solver_opts)\<close> allocates a new factorization;
  \<^verbatim>\<open>Ainv.clean()\<close> marks one; \<^verbatim>\<open>Ainv * rhs\<close> solves with one.
\<close>

definition solver :: "mat \<Rightarrow> simulation \<Rightarrow> nat \<times> simulation" where
  "solver A s = (length (heap s), s\<lparr>heap := heap s @ [\<lparr>fmat = A, cleaned = False\<rparr>]\<rparr>)"

definition clean :: "nat \<Rightarrow> simulation \<Rightarrow> simulation" where
  "clean h s = s\<lparr>heap := (heap s)[h := (heap s ! h)\<lparr>cleaned := True\<rparr>]\<rparr>"

definition apply_factor :: "simulation \<Rightarrow> nat \<Rightarrow> vec \<Rightarrow> vec" where
  "apply_factor s h rhs = solve s (fmat (heap s ! h)) rhs"

fun collect :: "('a \<Rightarrow> error + 'b) \<Rightarrow> 'a list \<Rightarrow> error + 'b list" where
  "collect g [] = Inr []"
| "collect g (x # xs) =
     bind_err (g x) (\<lambda>y. bind_err (collect g xs) (\<lambda>ys. Inr (y # ys)))"

text \<open>
  \<^verbatim>\<open>getSourceTerm\<close>: one column per source, each the zero column plus what the
  source evaluates to at \<^verbatim>\<open>times[tInd]\<close>.
\<close>

definition getSourceTerm :: "simulation \<Rightarrow> int \<Rightarrow> error + (vec list \<times> vec list)" where
  "getSourceTerm s tInd =
     bind_err (the_survey s) (\<lambda>Srcs.
       let (nm, ne) =
             (if formulation_tag (sim_class s) = ''EB''
              then (n_faces (mesh s), n_edges (mesh s))
              else (n_edges (mesh s), n_faces (mesh s)))
       in bind_err
            (collect (\<lambda>src. bind_err (py_get (times s) tInd) (\<lambda>t.
               let (smi, sei) = src_eval src (model s) t
               in Inr (vadd_z (zeros nm) smi, vadd_z (zeros ne) sei))) Srcs)
            (\<lambda>cols. Inr (map fst cols, map snd cols)))"

text \<open>
  \<^verbatim>\<open>getInitialFields\<close>: the column of every source; \<^verbatim>\<open>getInitialFieldsDeriv\<close> as
  \<^verbatim>\<open>Jvec\<close> calls it (\<^verbatim>\<open>adjoint=False\<close>), where adding a zero array turns a Zero
  into an array.
\<close>

definition field_size :: "simulation \<Rightarrow> nat" where
  "field_size s =
     (if fieldType (sim_class s) \<in> {''b'', ''j''} then n_faces (mesh s) else n_edges (mesh s))"

definition getInitialFields :: "simulation \<Rightarrow> error + vec list" where
  "getInitialFields s =
     bind_err (the_survey s) (\<lambda>Srcs.
       Inr (map (\<lambda>src. vadd_z (zeros (field_size s))
                         (Initial src (fieldType (sim_class s)) (model s))) Srcs))"

definition getInitialFieldsDeriv :: "simulation \<Rightarrow> source \<Rightarrow> vec \<Rightarrow> vec" where
  "getInitialFieldsDeriv s src v =
     (case InitialDeriv src (fieldType (sim_class s)) (model s) v of
        Zero \<Rightarrow> zeros (field_size s)
      | Arr d \<Rightarrow> vadd d (zeros (field_size s)))"

subsection \<open>The four formulations\<close>

abbreviation "C' s \<equiv> edge_curl (mesh s)"
abbreviation "MeSigma' s \<equiv> MeSigma (physics s) (model s)"
abbreviation "MeSigmaI' s \<equiv> MeSigmaI (physics s) (model s)"
abbreviation "MfMui' s \<equiv> MfMui (physics s) (model s)"
abbreviation "MfRho' s \<equiv> MfRho (physics s) (model s)"
abbreviation "MfRhoI' s \<equiv> MfRhoI (physics s) (model s)"
abbreviation "MeMu' s \<equiv> MeMu (physics s) (model s)"
abbreviation "MeMuI' s \<equiv> MeMuI (physics s) (model s)"

text \<open>\<^verbatim>\<open>assert tInd >= 0 and tInd < self.nT\<close>\<close>

definition assert_tInd :: "simulation \<Rightarrow> int \<Rightarrow> error + unit" where
  "assert_tInd s tInd = (if tInd \<ge> 0 \<and> tInd < nT s then Inr () else Inl AssertionError)"

subsubsection \<open>Simulation3DMagneticFluxDensity\<close>

definition getAdiag_b :: "simulation \<Rightarrow> int \<Rightarrow> error + mat" where
  "getAdiag_b s tInd =
     bind_err (assert_tInd s tInd) (\<lambda>_.
     bind_err (py_get (time_steps s) tInd) (\<lambda>dt.
       let I = speye (n_faces (mesh s));
           A = mat_add (mat_scale (1 / dt) I)
                 (mat_mul (C' s) (mat_mul (MeSigmaI' s) (mat_mul (mat_T (C' s)) (MfMui' s))))
       in if makeASymmetric s then Inr (mat_mul (mat_T (MfMui' s)) A) else Inr A))"

definition getAdiagDeriv_b :: "simulation \<Rightarrow> int \<Rightarrow> vec \<Rightarrow> vec \<Rightarrow> bool \<Rightarrow> error + zvec" where
  "getAdiagDeriv_b s tInd u v adjoint =
     (if adjoint then
        let v' = (if makeASymmetric s then mat_vec (MfMui' s) v else v)
        in Inr (MeSigmaIDeriv (physics s) (model s)
                  (mat_vec (mat_T (C' s)) (mat_vec (MfMui' s) u)) (mat_vec (mat_T (C' s)) v') adjoint)
      else
        let ADeriv = mat_zvec (C' s)
              (MeSigmaIDeriv (physics s) (model s)
                 (mat_vec (mat_T (C' s)) (mat_vec (MfMui' s) u)) v adjoint)
        in if makeASymmetric s then Inr (mat_zvec (mat_T (MfMui' s)) ADeriv) else Inr ADeriv)"

definition getAsubdiag_b :: "simulation \<Rightarrow> int \<Rightarrow> error + mat" where
  "getAsubdiag_b s tInd =
     bind_err (py_get (time_steps s) tInd) (\<lambda>dt.
       let Asubdiag = mat_scale (- 1 / dt) (speye (n_faces (mesh s)))
       in if makeASymmetric s then Inr (mat_mul (mat_T (MfMui' s)) Asubdiag) else Inr Asubdiag)"

definition getAsubdiagDeriv_b :: "simulation \<Rightarrow> int \<Rightarrow> vec \<Rightarrow> vec \<Rightarrow> bool \<Rightarrow> error + zvec" where
  "getAsubdiagDeriv_b s tInd u v adjoint = Inr Zero"

definition getRHS_b :: "simulation \<Rightarrow> int \<Rightarrow> error + vec list" where
  "getRHS_b s tInd =
     bind_err (getSourceTerm s tInd) (\<lambda>(s_m, s_e).
       let rhs = map2 (\<lambda>se sm. vadd (mat_vec (C' s) (mat_vec (MeSigmaI' s) se)) sm) s_e s_m
       in if makeASymmetric s then Inr (map (mat_vec (mat_T (MfMui' s))) rhs) else Inr rhs)"

definition getRHSDeriv_b :: "simulation \<Rightarrow> int \<Rightarrow> source \<Rightarrow> vec \<Rightarrow> bool \<Rightarrow> error + zvec" where
  "getRHSDeriv_b s tInd src v adjoint =
     bind_err (py_get (times s) tInd) (\<lambda>t.
       let (_, s_e) = src_eval src (model s) t;
           (s_mDeriv, s_eDeriv) = src_evalDeriv src (model s) t adjoint
       in if adjoint then
            let v' = (if makeASymmetric s then mat_vec (MfMui' s) v else v);
                MeSigmaIDerivT_v =
                  (case s_e of Zero \<Rightarrow> Zero
                   | Arr se \<Rightarrow> MeSigmaIDeriv (physics s) (model s) se
                                 (mat_vec (mat_T (C' s)) v') adjoint)
            in Inr (zadd (zadd MeSigmaIDerivT_v
                      (s_eDeriv (mat_vec (mat_T (MeSigmaI' s)) (mat_vec (mat_T (C' s)) v'))))
                      (s_mDeriv v'))
          else
            let MeSigmaIDeriv_v =
                  (case s_e of Zero \<Rightarrow> Zero
                   | Arr se \<Rightarrow> MeSigmaIDeriv (physics s) (model s) se v adjoint);
                RHSDeriv = zadd (zadd (mat_zvec (C' s) MeSigmaIDeriv_v)
                             (mat_zvec (mat_mul (C' s) (MeSigmaI' s)) (s_eDeriv v)))
                             (s_mDeriv v)
            in if makeASymmetric s then Inr (mat_zvec (mat_T (MfMui' s)) RHSDeriv)
               else Inr RHSDeriv)"

subsubsection \<open>Simulation3DElectricField\<close>

definition getAdiag_e :: "simulation \<Rightarrow> int \<Rightarrow> error + mat" where
  "getAdiag_e s tInd =
     bind_err (assert_tInd s tInd) (\<lambda>_.
     bind_err (py_get (time_steps s) tInd) (\<lambda>dt.
       Inr (mat_add (mat_mul (mat_T (C' s)) (mat_mul (MfMui' s) (C' s)))
              (mat_scale (1 / dt) (MeSigma' s)))))"

definition getAdiagDeriv_e :: "simulation \<Rightarrow> int \<Rightarrow> vec \<Rightarrow> vec \<Rightarrow> bool \<Rightarrow> error + zvec" where
  "getAdiagDeriv_e s tInd u v adjoint =
     bind_err (assert_tInd s tInd) (\<lambda>_.
     bind_err (py_get (time_steps s) tInd) (\<lambda>dt.
       if adjoint then Inr (zscale (1 / dt) (MeSigmaDeriv (physics s) (model s) u v adjoint))
       else Inr (zscale (1 / dt) (MeSigmaDeriv (physics s) (model s) u v adjoint))))"

definition getAsubdiag_e :: "simulation \<Rightarrow> int \<Rightarrow> error + mat" where
  "getAsubdiag_e s tInd =
     bind_err (assert_tInd s tInd) (\<lambda>_.
     bind_err (py_get (time_steps s) tInd) (\<lambda>dt.
       Inr (mat_scale (- 1 / dt) (MeSigma' s))))"

definition getAsubdiagDeriv_e :: "simulation \<Rightarrow> int \<Rightarrow> vec \<Rightarrow> vec \<Rightarrow> bool \<Rightarrow> error + zvec" where
  "getAsubdiagDeriv_e s tInd u v adjoint =
     bind_err (py_get (time_steps s) tInd) (\<lambda>dt.
       if adjoint then Inr (zscale (- 1 / dt) (MeSigmaDeriv (physics s) (model s) u v adjoint))
       else Inr (zscale (- 1 / dt) (MeSigmaDeriv (physics s) (model s) u v adjoint)))"

definition getRHS_e :: "simulation \<Rightarrow> int \<Rightarrow> error + vec list" where
  "getRHS_e s tInd =
     bind_err (py_get (time_steps s) (tInd - 1)) (\<lambda>dt.
     bind_err (getSourceTerm s tInd) (\<lambda>(s_m, s_e).
     bind_err (getSourceTerm s (tInd - 1)) (\<lambda>(_, s_en1).
       Inr (map2 (\<lambda>(se, sen1) sm.
              vadd (vscale (- 1 / dt) (vsub se sen1))
                   (mat_vec (mat_mul (mat_T (C' s)) (MfMui' s)) sm))
              (zip s_e s_en1) s_m))))"

definition getRHSDeriv_e :: "simulation \<Rightarrow> int \<Rightarrow> source \<Rightarrow> vec \<Rightarrow> bool \<Rightarrow> error + zvec" where
  "getRHSDeriv_e s tInd src v adjoint = Inr Zero"

definition getAdc_e :: "simulation \<Rightarrow> error + mat" where
  "getAdc_e s =
     (let Grad = nodal_gradient (mesh s);
          Adc = mat_mul (mat_mul (mat_T Grad) (MeSigma' s)) Grad
      in case bump00 Adc of None \<Rightarrow> Inl IndexError | Some Adc' \<Rightarrow> Inr Adc')"

subsubsection \<open>Simulation3DMagneticField\<close>

definition getAdiag_h :: "simulation \<Rightarrow> int \<Rightarrow> error + mat" where
  "getAdiag_h s tInd =
     bind_err (assert_tInd s tInd) (\<lambda>_.
     bind_err (py_get (time_steps s) tInd) (\<lambda>dt.
       Inr (mat_add (mat_mul (mat_T (C' s)) (mat_mul (MfRho' s) (C' s)))
              (mat_scale (1 / dt) (MeMu' s)))))"

definition getAdiagDeriv_h :: "simulation \<Rightarrow> int \<Rightarrow> vec \<Rightarrow> vec \<Rightarrow> bool \<Rightarrow> error + zvec" where
  "getAdiagDeriv_h s tInd u v adjoint =
     bind_err (assert_tInd s tInd) (\<lambda>_.
       if adjoint
       then Inr (MfRhoDeriv (physics s) (model s) (mat_vec (C' s) u) (mat_vec (C' s) v) adjoint)
       else Inr (mat_zvec (mat_T (C' s))
                   (MfRhoDeriv (physics s) (model s) (mat_vec (C' s) u) v adjoint)))"

definition getAsubdiag_h :: "simulation \<Rightarrow> int \<Rightarrow> error + mat" where
  "getAsubdiag_h s tInd =
     bind_err (assert_tInd s tInd) (\<lambda>_.
     bind_err (py_get (time_steps s) tInd) (\<lambda>dt.
       Inr (mat_scale (- 1 / dt) (MeMu' s))))"

definition getAsubdiagDeriv_h :: "simulation \<Rightarrow> int \<Rightarrow> vec \<Rightarrow> vec \<Rightarrow> bool \<Rightarrow> error + zvec" where
  "getAsubdiagDeriv_h s tInd u v adjoint = Inr Zero"

definition getRHS_h :: "simulation \<Rightarrow> int \<Rightarrow> error + vec list" where
  "getRHS_h s tInd =
     bind_err (getSourceTerm s tInd) (\<lambda>(s_m, s_e).
       Inr (map2 (\<lambda>se sm. vadd (mat_vec (mat_T (C' s)) (mat_vec (MfRho' s) se)) sm) s_e s_m))"

text \<open>
  The class body defines \<^verbatim>\<open>getRHSDeriv\<close> twice; the second definition
  replaces the first when the class is created, so the method is the second one.
\<close>

definition getRHSDeriv_h :: "simulation \<Rightarrow> int \<Rightarrow> source \<Rightarrow> vec \<Rightarrow> bool \<Rightarrow> error + zvec" where
  "getRHSDeriv_h s tInd src v adjoint = Inr Zero"

definition getAdc_hj :: "simulation \<Rightarrow> error + mat" where
  "getAdc_hj s =
     (let D = mat_mul (sdiag (cell_volumes (mesh s))) (face_divergence (mesh s));
          G = mat_T D
      in Inr (mat_mul (mat_mul D (MfRhoI' s)) G))"

subsubsection \<open>Simulation3DCurrentDensity\<close>

definition getAdiag_j :: "simulation \<Rightarrow> int \<Rightarrow> error + mat" where
  "getAdiag_j s tInd =
     bind_err (assert_tInd s tInd) (\<lambda>_.
     bind_err (py_get (time_steps s) tInd) (\<lambda>dt.
       let eye = speye (n_faces (mesh s));
           A = mat_add (mat_mul (C' s) (mat_mul (MeMuI' s) (mat_mul (mat_T (C' s)) (MfRho' s))))
                 (mat_scale (1 / dt) eye)
       in if makeASymmetric s then Inr (mat_mul (mat_T (MfRho' s)) A) else Inr A))"

definition getAdiagDeriv_j :: "simulation \<Rightarrow> int \<Rightarrow> vec \<Rightarrow> vec \<Rightarrow> bool \<Rightarrow> error + zvec" where
  "getAdiagDeriv_j s tInd u v adjoint =
     bind_err (assert_tInd s tInd) (\<lambda>_.
       if adjoint then
         let v' = (if makeASymmetric s then mat_vec (MfRho' s) v else v)
         in Inr (MfRhoDeriv (physics s) (model s) u
                   (mat_vec (C' s) (mat_vec (mat_T (MeMuI' s)) (mat_vec (mat_T (C' s)) v'))) adjoint)
       else
         let ADeriv = mat_zvec (C' s) (mat_zvec (MeMuI' s) (mat_zvec (mat_T (C' s))
                        (MfRhoDeriv (physics s) (model s) u v adjoint)))
         in if makeASymmetric s then Inr (mat_zvec (mat_T (MfRho' s)) ADeriv) else Inr ADeriv)"

definition getAsubdiag_j :: "simulation \<Rightarrow> int \<Rightarrow> error + mat" where
  "getAsubdiag_j s tInd =
     bind_err (assert_tInd s tInd) (\<lambda>_.
       let eye = speye (n_faces (mesh s))
       in bind_err (py_get (time_steps s) tInd) (\<lambda>dt.
            if makeASymmetric s then Inr (mat_scale (- 1 / dt) (mat_T (MfRho' s)))
            else Inr (mat_scale (- 1 / dt) eye)))"

definition getAsubdiagDeriv_j :: "simulation \<Rightarrow> int \<Rightarrow> vec \<Rightarrow> vec \<Rightarrow> bool \<Rightarrow> error + zvec" where
  "getAsubdiagDeriv_j s tInd u v adjoint = Inr Zero"

definition getRHS_j :: "simulation \<Rightarrow> int \<Rightarrow> error + vec list" where
  "getRHS_j s tInd0 =
     (let tInd = (if tInd0 = int (length (time_steps s)) then tInd0 - 1 else tInd0)
      in bind_err (py_get (time_steps s) tInd) (\<lambda>dt.
         bind_err (getSourceTerm s tInd) (\<lambda>(s_m, s_e).
         bind_err (getSourceTerm s (tInd - 1)) (\<lambda>(_, s_en1).
           let rhs = map2 (\<lambda>(se, sen1) sm.
                       vadd (vscale (- 1 / dt) (vsub se sen1))
                            (mat_vec (mat_mul (C' s) (MeMuI' s)) sm))
                       (zip s_e s_en1) s_m
           in if makeASymmetric s then Inr (map (mat_vec (mat_T (MfRho' s))) rhs)
              else Inr rhs))))"

definition getRHSDeriv_j :: "simulation \<Rightarrow> int \<Rightarrow> source \<Rightarrow> vec \<Rightarrow> bool \<Rightarrow> error + zvec" where
  "getRHSDeriv_j s tInd src v adjoint = Inr Zero"

subsubsection \<open>Dispatch on the class of the simulation\<close>

definition getAdiag :: "simulation \<Rightarrow> int \<Rightarrow> error + mat" where
  "getAdiag s tInd = (case sim_class s of
      Simulation3DMagneticFluxDensity \<Rightarrow> getAdiag_b s tInd
    | Simulation3DElectricField \<Rightarrow> getAdiag_e s tInd
    | Simulation3DMagneticField \<Rightarrow> getAdiag_h s tInd
    | Simulation3DCurrentDensity \<Rightarrow> getAdiag_j s tInd)"

definition getAdiagDeriv :: "simulation \<Rightarrow> int \<Rightarrow> vec \<Rightarrow> vec \<Rightarrow> bool \<Rightarrow> error + zvec" where
  "getAdiagDeriv s tInd u v adjoint = (case sim_class s of
      Simulation3DMagneticFluxDensity \<Rightarrow> getAdiagDeriv_b s tInd u v adjoint
    | Simulation3DElectricField \<Rightarrow> getAdiagDeriv_e s tInd u v adjoint
    | Simulation3DMagneticField \<Rightarrow> getAdiagDeriv_h s tInd u v adjoint
    | Simulation3DCurrentDensity \<Rightarrow> getAdiagDeriv_j s tInd u v adjoint)"

definition getAsubdiag :: "simulation \<Rightarrow> int \<Rightarrow> error + mat" where
  "getAsubdiag s tInd = (case sim_class s of
      Simulation3DMagneticFluxDensity \<Rightarrow> getAsubdiag_b s tInd
    | Simulation3DElectricField \<Rightarrow> getAsubdiag_e s tInd
    | Simulation3DMagneticField \<Rightarrow> getAsubdiag_h s tInd
    | Simulation3DCurrentDensity \<Rightarrow> getAsubdiag_j s tInd)"

definition getAsubdiagDeriv :: "simulation \<Rightarrow> int \<Rightarrow> vec \<Rightarrow> vec \<Rightarrow> bool \<Rightarrow> error + zvec" where
  "getAsubdiagDeriv s tInd u v adjoint = (case sim_class s of
      Simulation3DMagneticFluxDensity \<Rightarrow> getAsubdiagDeriv_b s tInd u v adjoint
    | Simulation3DElectricField \<Rightarrow> getAsubdiagDeriv_e s tInd u v adjoint
    | Simulation3DMagneticField \<Rightarrow> getAsubdiagDeriv_h s tInd u v adjoint
    | Simulation3DCurrentDensity \<Rightarrow> getAsubdiagDeriv_j s tInd u v adjoint)"

definition getRHS :: "simulation \<Rightarrow> int \<Rightarrow> error + vec list" where
  "getRHS s tInd = (case sim_class s of
      Simulation3DMagneticFluxDensity \<Rightarrow> getRHS_b s tInd
    | Simulation3DElectricField \<Rightarrow> getRHS_e s tInd
    | Simulation3DMagneticField \<Rightarrow> getRHS_h s tInd
    | Simulation3DCurrentDensity \<Rightarrow> getRHS_j s tInd)"

definition getRHSDeriv :: "simulation \<Rightarrow> int \<Rightarrow> source \<Rightarrow> vec \<Rightarrow> bool \<Rightarrow> error + zvec" where
  "getRHSDeriv s tInd src v adjoint = (case sim_class s of
      Simulation3DMagneticFluxDensity \<Rightarrow> getRHSDeriv_b s tInd src v adjoint
    | Simulation3DElectricField \<Rightarrow> getRHSDeriv_e s tInd src v adjoint
    | Simulation3DMagneticField \<Rightarrow> getRHSDeriv_h s tInd src v adjoint
    | Simulation3DCurrentDensity \<Rightarrow> getRHSDeriv_j s tInd src v adjoint)"

text \<open>\<^verbatim>\<open>hasattr(self, "getAdc")\<close>: the flux-density class defines no \<^verbatim>\<open>getAdc\<close>.\<close>

fun has_getAdc :: "formulation \<Rightarrow> bool" where
  "has_getAdc Simulation3DMagneticFluxDensity = False"
| "has_getAdc Simulation3DElectricField = True"
| "has_getAdc Simulation3DMagneticField = True"
| "has_getAdc Simulation3DCurrentDensity = True"

definition getAdc :: "simulation \<Rightarrow> error + mat" where
  "getAdc s = (case sim_class s of
      Simulation3DMagneticFluxDensity \<Rightarrow> Inl AttributeError
    | Simulation3DElectricField \<Rightarrow> getAdc_e s
    | Simulation3DMagneticField \<Rightarrow> getAdc_hj s
    | Simulation3DCurrentDensity \<Rightarrow> getAdc_hj s)"

subsection \<open>The steady-state factorization\<close>

text \<open>
  The property \<^verbatim>\<open>Adcinv\<close>: a capability error on a class without \<^verbatim>\<open>getAdc\<close>,
  otherwise the factorization of \<^verbatim>\<open>getAdc()\<close>, built on the first access and kept in
  \<^verbatim>\<open>_Adcinv\<close>.
\<close>

definition Adcinv :: "simulation \<Rightarrow> error + (nat \<times> simulation)" where
  "Adcinv s =
     (if \<not> has_getAdc (sim_class s) then
        Inl (NotImplementedError
               (''Support for galvanic sources has not been implemented for ''
                @ fieldType (sim_class s) @ ''-formulation''))
      else case Adcinv_cache s of
        None \<Rightarrow>
          bind_err (getAdc s) (\<lambda>Adc.
            let (h, s') = solver Adc s
            in Inr (h, s'\<lparr>Adcinv_cache := Some h\<rparr>))
      | Some h \<Rightarrow> Inr (h, s))"

subsection \<open>The model setter\<close>

text \<open>
  Modelled from the spec: the setter of \<^verbatim>\<open>model\<close> belongs to the base simulation
  class, which is not among the sources. The spec has the steady-state factorization
  invalidated exactly when the model changes, and \<^verbatim>\<open>clean_on_model_update\<close> of this
  file adds \<^verbatim>\<open>_Adcinv\<close> to what the setter cleans. Neither names \<^verbatim>\<open>Ainv\<close> or
  \<^verbatim>\<open>ATinv\<close>: the setter leaves the two dictionaries alone.
\<close>

definition set_model :: "vec \<Rightarrow> simulation \<Rightarrow> simulation" where
  "set_model m s =
     (if m = model s then s
      else case Adcinv_cache s of
             None \<Rightarrow> s\<lparr>model := m\<rparr>
           | Some h \<Rightarrow> (clean h s)\<lparr>model := m, Adcinv_cache := None\<rparr>)"

subsection \<open>The forward stepper\<close>

text \<open>\<^verbatim>\<open>np.round\<close> rounds half to even; \<^verbatim>\<open>np.unique\<close> sorts and removes duplicates.\<close>

definition np_round :: "real \<Rightarrow> real" where
  "np_round x =
     (let f = \<lfloor>x\<rfloor>; d = x - of_int f
      in if d < 1 / 2 then of_int f
         else if d > 1 / 2 then of_int (f + 1)
         else if even f then of_int f else of_int (f + 1))"

definition np_unique :: "real list \<Rightarrow> real list" where
  "np_unique xs = sort (remdups xs)"

definition fromkeys :: "real list \<Rightarrow> (real \<times> nat option) list" where
  "fromkeys ks = map (\<lambda>k. (k, None)) ks"

text \<open>\<^verbatim>\<open>d[k] = v\<close> on a dictionary, and \<^verbatim>\<open>d[k]\<close> with its KeyError.\<close>

fun dict_set :: "(real \<times> 'v) list \<Rightarrow> real \<Rightarrow> 'v \<Rightarrow> (real \<times> 'v) list" where
  "dict_set [] k v = [(k, v)]"
| "dict_set ((k', v') # d) k v = (if k' = k then (k, v) # d else (k', v') # dict_set d k v)"

definition dict_get :: "(real \<times> 'v) list \<Rightarrow> real \<Rightarrow> error + 'v" where
  "dict_get d k = (case map_of d k of None \<Rightarrow> Inl KeyError | Some v \<Rightarrow> Inr v)"

text \<open>
  \<^verbatim>\<open>{k: v.clean() for k, v in d.items()}\<close>: every factorization is cleaned and the new
  dictionary holds what \<^verbatim>\<open>clean()\<close> returns, \<^verbatim>\<open>None\<close>. A value that is already
  \<^verbatim>\<open>None\<close> has no method \<^verbatim>\<open>clean\<close>: AttributeError, with the factorizations before
  it already cleaned.
\<close>

fun clean_values ::
  "(real \<times> nat option) list \<Rightarrow> simulation \<Rightarrow> (error + (real \<times> nat option) list) \<times> simulation" where
  "clean_values [] s = (Inr [], s)"
| "clean_values ((k, None) # kvs) s = (Inl AttributeError, s)"
| "clean_values ((k, Some h) # kvs) s =
     (case clean_values kvs (clean h s) of
        (Inl e, s') \<Rightarrow> (Inl e, s')
      | (Inr d, s') \<Rightarrow> (Inr ((k, None) # d), s'))"

text \<open>
  The block under \<^verbatim>\<open>if self.forward_only is False\<close>, in three parts: the direct
  dictionary is cleaned (or created, after rounding the step lengths), the transposed
  one is cleaned (or created, when the attribute is missing or holds a \<^verbatim>\<open>None\<close>), and
  the direct operator is factored once for every distinct step length.
\<close>

definition clean_Ainv :: "simulation \<Rightarrow> error + simulation" where
  "clean_Ainv s =
     (case Ainv s of
        Some d \<Rightarrow>
          (case clean_values d s of
             (Inl e, _) \<Rightarrow> Inl e
           | (Inr d', s') \<Rightarrow> Inr (s'\<lparr>Ainv := Some d'\<rparr>))
      | None \<Rightarrow>
          let ts = map (\<lambda>dt. dt_threshold s * np_round (dt / dt_threshold s)) (time_steps s)
          in Inr (s\<lparr>time_steps := ts, Ainv := Some (fromkeys (np_unique ts))\<rparr>))"

definition clean_ATinv :: "simulation \<Rightarrow> simulation" where
  "clean_ATinv s =
     (case ATinv s of
        None \<Rightarrow> s\<lparr>ATinv := Some (fromkeys (np_unique (time_steps s)))\<rparr>
      | Some d \<Rightarrow>
          (case clean_values d s of
             (Inl e, s') \<Rightarrow> s'\<lparr>ATinv := Some (fromkeys (np_unique (time_steps s')))\<rparr>
           | (Inr d', s') \<Rightarrow> s'\<lparr>ATinv := Some d'\<rparr>))"

definition factor_Ainv :: "real \<Rightarrow> simulation \<Rightarrow> error + simulation" where
  "factor_Ainv dt s =
     (case list_index (time_steps s) dt of
        None \<Rightarrow> Inl ValueError
      | Some tInd \<Rightarrow>
          bind_err (getAdiag s (int tInd)) (\<lambda>A.
            let (h, s') = solver A s
            in case Ainv s' of
                 None \<Rightarrow> Inl AttributeError
               | Some d \<Rightarrow> Inr (s'\<lparr>Ainv := Some (dict_set d dt (Some h))\<rparr>)))"

definition store_factorizations :: "simulation \<Rightarrow> error + simulation" where
  "store_factorizations s =
     bind_err (clean_Ainv s) (\<lambda>s1.
       let s2 = clean_ATinv s1
       in for_each factor_Ainv (np_unique (time_steps s2)) s2)"

text \<open>
  The state of the stepping loop: the factorization in flight (the local \<^verbatim>\<open>Ainv\<close>),
  the fields object (the solution columns of all sources, by time index) and the
  simulation.
\<close>

type_synonym fields_state = "nat option \<times> vec list list \<times> simulation"

text \<open>\<^verbatim>\<open>Ainv * x\<close>, where a \<^verbatim>\<open>None\<close> cannot be multiplied.\<close>

definition apply_opt :: "simulation \<Rightarrow> nat option \<Rightarrow> vec \<Rightarrow> error + vec" where
  "apply_opt s Ainv0 x = (case Ainv0 of None \<Rightarrow> Inl TypeError | Some h \<Rightarrow> Inr (apply_factor s h x))"

text \<open>Reading one time slice of a fields object, and one column of a slice.\<close>

definition nth_err :: "'a list \<Rightarrow> nat \<Rightarrow> error + 'a" where
  "nth_err xs i = (if i < length xs then Inr (xs ! i) else Inl IndexError)"

definition fields_clean_if_changed :: "nat \<Rightarrow> real \<Rightarrow> nat option \<times> simulation \<Rightarrow> nat option \<times> simulation" where
  "fields_clean_if_changed tInd dt = (\<lambda>(Ainv0, s).
     (case Ainv0 of
        Some h \<Rightarrow>
          if tInd > 0 \<and> \<bar>dt - time_steps s ! (tInd - 1)\<bar> > dt_threshold s
          then (None, if forward_only s then clean h s else s)
          else (Some h, s)
      | None \<Rightarrow> (None, s)))"

definition factor_if_none :: "nat \<Rightarrow> real \<Rightarrow> nat option \<times> simulation \<Rightarrow> error + (nat option \<times> simulation)" where
  "factor_if_none tInd dt = (\<lambda>(Ainv0, s).
     (case Ainv0 of
        Some h \<Rightarrow> Inr (Some h, s)
      | None \<Rightarrow>
          if forward_only s then
            bind_err (getAdiag s (int tInd)) (\<lambda>A. let (h, s') = solver A s in Inr (Some h, s'))
          else (case Ainv s of
                  None \<Rightarrow> Inl AttributeError
                | Some d \<Rightarrow> bind_err (dict_get d dt) (\<lambda>v. Inr (v, s)))))"

definition fields_step :: "nat \<Rightarrow> fields_state \<Rightarrow> error + fields_state" where
  "fields_step tInd = (\<lambda>(Ainv0, f, s0).
     let dt = time_steps s0 ! tInd
     in bind_err (factor_if_none tInd dt (fields_clean_if_changed tInd dt (Ainv0, s0))) (\<lambda>(Ainv1, s).
        bind_err (getRHS s (int tInd + 1)) (\<lambda>rhs.
        bind_err (getAsubdiag s (int tInd)) (\<lambda>Asubdiag.
        bind_err (nth_err f tInd) (\<lambda>u.
        bind_err (collect (\<lambda>(r, ui). apply_opt s Ainv1 (vsub r (mat_vec Asubdiag ui))) (zip rhs u)) (\<lambda>sol.
          Inr (Ainv1, f[tInd + 1 := sol], s)))))))"

text \<open>
  The fields object holds one slice per time node; the stepper writes slice
  \<open>tInd + 1\<close> at step \<open>tInd\<close>. After the loop the factorization in flight is
  cleaned when nothing is stored; with no time step at all there is none to clean.
\<close>

definition fields_finish :: "fields_state \<Rightarrow> error + (vec list list \<times> simulation)" where
  "fields_finish = (\<lambda>(Ainv0, f, s).
     if forward_only s then
       (case Ainv0 of None \<Rightarrow> Inl AttributeError | Some h \<Rightarrow> Inr (f, clean h s))
     else Inr (f, s))"

definition fields :: "vec \<Rightarrow> simulation \<Rightarrow> error + (vec list list \<times> simulation)" where
  "fields m s0 =
     (let s1 = set_model m s0
      in bind_err (getInitialFields s1) (\<lambda>f0.
         bind_err (if \<not> forward_only s1 then store_factorizations s1 else Inr s1) (\<lambda>s2.
         bind_err (for_each fields_step [0..<length (time_steps s2)]
                     (None, f0 # replicate (length (time_steps s2)) (map (\<lambda>_. zeros (field_size s2)) f0), s2))
           fields_finish)))"

subsection \<open>The forward sensitivity\<close>

text \<open>
  The containers \<^verbatim>\<open>df_dm_v\<close>, \<^verbatim>\<open>df_duT_v\<close> and \<^verbatim>\<open>PT_v\<close>: keyed by the position of
  the source in the survey, the field name and the time index. An entry never written
  holds no contribution and reads as zeros of the field's storage size.
\<close>

type_synonym deriv_store = "nat \<times> string \<times> nat \<Rightarrow> zvec"

definition dense :: "nat \<Rightarrow> zvec \<Rightarrow> vec" where
  "dense n z = (case z of Zero \<Rightarrow> zeros n | Arr x \<Rightarrow> x)"

text \<open>\<^verbatim>\<open>mkvc(store[src, name, :])\<close>: the slices of all time nodes, one after the other.\<close>

definition mkvc_slices :: "simulation \<Rightarrow> deriv_store \<Rightarrow> nat \<Rightarrow> string \<Rightarrow> string \<Rightarrow> vec" where
  "mkvc_slices s st i fld name =
     concat (map (\<lambda>t. dense (storage_size s fld) (st (i, name, t)))
                 [0..<length (time_steps s) + 1])"

text \<open>\<^verbatim>\<open>f[src, ftype, tInd]\<close>: the column of source \<open>i\<close> in slice \<open>tInd\<close>.\<close>

definition f_get :: "vec list list \<Rightarrow> nat \<Rightarrow> nat \<Rightarrow> error + vec" where
  "f_get f tInd i = bind_err (nth_err f tInd) (\<lambda>slice. nth_err slice i)"

text \<open>\<^verbatim>\<open>z - x\<close> for a possibly-Zero \<open>z\<close> and an array \<open>x\<close>.\<close>

fun zsub_v :: "zvec \<Rightarrow> vec \<Rightarrow> vec" where
  "zsub_v Zero x = vneg x"
| "zsub_v (Arr a) x = vsub a x"

type_synonym jvec_state = "nat option \<times> vec list \<times> deriv_store \<times> simulation"

definition Jvec_clean_if_changed :: "nat \<Rightarrow> real \<Rightarrow> nat option \<times> simulation \<Rightarrow> nat option \<times> simulation" where
  "Jvec_clean_if_changed tInd dt = (\<lambda>(Adiaginv0, s).
     (case Adiaginv0 of
        Some h \<Rightarrow>
          if tInd > 0 \<and> dt \<noteq> time_steps s ! (tInd - 1)
          then (None, if forward_only s then clean h s else s)
          else (Some h, s)
      | None \<Rightarrow> (None, s)))"

text \<open>
  The body of the loop over the sources at one time step: the projected-field
  derivatives of the receivers' fields, then the right-hand side of the linearised
  step; \<open>step_guard\<close> is the condition \<^verbatim>\<open>tInd != len(self.time_steps + 1)\<close>, where
  \<^verbatim>\<open>self.time_steps + 1\<close> adds one to every entry of the array.
\<close>

definition Jvec_projFields ::
  "simulation \<Rightarrow> vec \<Rightarrow> nat \<Rightarrow> nat \<Rightarrow> source \<Rightarrow> vec \<Rightarrow> string \<Rightarrow> deriv_store \<Rightarrow> error + deriv_store" where
  "Jvec_projFields s v tInd i src dun_i = (\<lambda>pf df_dm_v.
     case fieldsDeriv s pf of
       None \<Rightarrow> Inl TypeError
     | Some df_dmFun \<Rightarrow>
         Inr (df_dm_v((i, pf @ ''Deriv'', tInd) := df_dmFun (model s) tInd src dun_i v)))"

definition Jvec_JRHS ::
  "simulation \<Rightarrow> vec list list \<Rightarrow> vec \<Rightarrow> nat \<Rightarrow> nat \<Rightarrow> source \<Rightarrow> error + zvec" where
  "Jvec_JRHS s f v tInd i src =
     bind_err (f_get f (tInd + 1) i) (\<lambda>un_src.
     bind_err (getAdiagDeriv s (int tInd) un_src v False) (\<lambda>dA_dm_v.
     bind_err (getRHSDeriv s (int tInd + 1) src v False) (\<lambda>dRHS_dm_v.
     bind_err (f_get f tInd i) (\<lambda>u.
     bind_err (getAsubdiagDeriv s (int tInd) u v False) (\<lambda>dAsubdiag_dm_v.
       Inr (zsub (zsub dRHS_dm_v dAsubdiag_dm_v) dA_dm_v))))))"

definition step_guard :: "simulation \<Rightarrow> nat \<Rightarrow> bool" where
  "step_guard s tInd \<longleftrightarrow> int tInd \<noteq> int (length (map (\<lambda>dt. dt + 1) (time_steps s)))"

definition Jvec_source ::
  "vec list list \<Rightarrow> vec \<Rightarrow> nat \<Rightarrow> nat option \<Rightarrow> mat \<Rightarrow> simulation \<Rightarrow>
   nat \<times> source \<Rightarrow> vec list \<times> deriv_store \<Rightarrow> error + (vec list \<times> deriv_store)" where
  "Jvec_source f v tInd Adiaginv Asubdiag s = (\<lambda>(i, src) (dun_dm_v, df_dm_v).
     bind_err (for_each (Jvec_projFields s v tInd i src (dun_dm_v ! i))
                 (remdups (map projField (receiver_list src))) df_dm_v) (\<lambda>df'.
     bind_err (Jvec_JRHS s f v tInd i src) (\<lambda>JRHS.
       if step_guard s tInd then
         bind_err (apply_opt s Adiaginv (zsub_v JRHS (mat_vec Asubdiag (dun_dm_v ! i)))) (\<lambda>d.
           Inr (dun_dm_v[i := d], df'))
       else Inr (dun_dm_v, df'))))"

text \<open>The same body with the guard removed: the update is unconditional.\<close>

definition Jvec_source_unguarded ::
  "vec list list \<Rightarrow> vec \<Rightarrow> nat \<Rightarrow> nat option \<Rightarrow> mat \<Rightarrow> simulation \<Rightarrow>
   nat \<times> source \<Rightarrow> vec list \<times> deriv_store \<Rightarrow> error + (vec list \<times> deriv_store)" where
  "Jvec_source_unguarded f v tInd Adiaginv Asubdiag s = (\<lambda>(i, src) (dun_dm_v, df_dm_v).
     bind_err (for_each (Jvec_projFields s v tInd i src (dun_dm_v ! i))
                 (remdups (map projField (receiver_list src))) df_dm_v) (\<lambda>df'.
     bind_err (Jvec_JRHS s f v tInd i src) (\<lambda>JRHS.
       bind_err (apply_opt s Adiaginv (zsub_v JRHS (mat_vec Asubdiag (dun_dm_v ! i)))) (\<lambda>d.
         Inr (dun_dm_v[i := d], df')))))"

text \<open>
  One time step of \<^verbatim>\<open>Jvec\<close>, the whole method, parameterised by the body of the loop
  over the sources, so that the method with and without the guard share the rest.
\<close>

definition Jvec_step ::
  "(vec list list \<Rightarrow> vec \<Rightarrow> nat \<Rightarrow> nat option \<Rightarrow> mat \<Rightarrow> simulation \<Rightarrow>
    nat \<times> source \<Rightarrow> vec list \<times> deriv_store \<Rightarrow> error + (vec list \<times> deriv_store)) \<Rightarrow>
   vec list list \<Rightarrow> vec \<Rightarrow> source list \<Rightarrow> nat \<Rightarrow> jvec_state \<Rightarrow> error + jvec_state" where
  "Jvec_step body f v Srcs tInd = (\<lambda>(Adiaginv0, dun_dm_v, df_dm_v, s0).
     let dt = time_steps s0 ! tInd
     in bind_err (factor_if_none tInd dt (Jvec_clean_if_changed tInd dt (Adiaginv0, s0)))
          (\<lambda>(Adiaginv, s).
        bind_err (getAsubdiag s (int tInd)) (\<lambda>Asubdiag.
        bind_err (for_each (body f v tInd Adiaginv Asubdiag s) (enumerate 0 Srcs)
                    (dun_dm_v, df_dm_v)) (\<lambda>(dun', df').
          Inr (Adiaginv, dun', df', s)))))"

definition Jvec_project :: "simulation \<Rightarrow> source list \<Rightarrow> deriv_store \<Rightarrow> error + vec" where
  "Jvec_project s Srcs df_dm_v =
     (let Jv = concat (map (\<lambda>(i, src).
                 map (\<lambda>rx. rx_evalDeriv rx
                        (mkvc_slices s df_dm_v i (projField rx) (projField rx @ ''Deriv'')) False)
                     (receiver_list src)) (enumerate 0 Srcs))
      in if Jv = [] then Inl ValueError else Inr (concat Jv))"

definition Jvec_with ::
  "(vec list list \<Rightarrow> vec \<Rightarrow> nat \<Rightarrow> nat option \<Rightarrow> mat \<Rightarrow> simulation \<Rightarrow>
    nat \<times> source \<Rightarrow> vec list \<times> deriv_store \<Rightarrow> error + (vec list \<times> deriv_store)) \<Rightarrow>
   vec \<Rightarrow> vec \<Rightarrow> vec list list option \<Rightarrow> simulation \<Rightarrow> error + (vec \<times> simulation)" where
  "Jvec_with body m v f_opt s0 =
     bind_err (case f_opt of None \<Rightarrow> fields m s0 | Some f \<Rightarrow> Inr (f, s0)) (\<lambda>(f, s1).
       let s2 = set_model m s1
       in bind_err (the_survey s2) (\<lambda>Srcs.
          if Srcs = [] then Inl ValueError
          else
            let dun_dm_v = map (\<lambda>src. getInitialFieldsDeriv s2 src v) Srcs
            in bind_err (for_each (Jvec_step body f v Srcs) [0..<length (time_steps s2)]
                           (None, dun_dm_v, (\<lambda>_. Zero), s2)) (\<lambda>(Adiaginv, dun', df_dm_v, s3).
               bind_err (if forward_only s3
                         then (case Adiaginv of None \<Rightarrow> Inl AttributeError
                               | Some h \<Rightarrow> Inr (clean h s3))
                         else Inr s3) (\<lambda>s4.
               bind_err (Jvec_project s4 Srcs df_dm_v) (\<lambda>Jv. Inr (Jv, s4))))))"

definition Jvec :: "vec \<Rightarrow> vec \<Rightarrow> vec list list option \<Rightarrow> simulation \<Rightarrow> error + (vec \<times> simulation)" where
  "Jvec = Jvec_with Jvec_source"

definition Jvec_unguarded ::
  "vec \<Rightarrow> vec \<Rightarrow> vec list list option \<Rightarrow> simulation \<Rightarrow> error + (vec \<times> simulation)" where
  "Jvec_unguarded = Jvec_with Jvec_source_unguarded"

subsection \<open>The adjoint sensitivity\<close>

text \<open>
  The data object \<open>v\<close> is read as \<^verbatim>\<open>v[src, rx]\<close>: a function of the positions of the
  source and of the receiver. The base class and the electric-field class each have a
  \<^verbatim>\<open>Jtvec\<close>; the two bodies agree up to the end of the backward loop (the second one
  omits a \<^verbatim>\<open>tocsr()\<close>), and that common part is \<open>Jtvec_backsolve\<close>.
\<close>

definition factor_ATinv :: "real \<Rightarrow> simulation \<Rightarrow> error + simulation" where
  "factor_ATinv dt s =
     (case list_index (time_steps s) dt of
        None \<Rightarrow> Inl ValueError
      | Some tInd \<Rightarrow>
          bind_err (getAdiag s (int tInd)) (\<lambda>A.
            let (h, s') = solver (mat_T A) s
            in case ATinv s' of
                 None \<Rightarrow> Inl AttributeError
               | Some d \<Rightarrow> Inr (s'\<lparr>ATinv := Some (dict_set d dt (Some h))\<rparr>)))"

text \<open>The block \<^verbatim>\<open>Compute new factorizations\<close>.\<close>

definition Jtvec_factor :: "simulation \<Rightarrow> error + simulation" where
  "Jtvec_factor s =
     (if forward_only s then Inr s
      else case ATinv s of
             None \<Rightarrow> Inl AttributeError
           | Some d \<Rightarrow>
               if list_ex (\<lambda>(k, x). x = None) d
               then for_each factor_ATinv (np_unique (time_steps s)) s
               else Inr s)"

text \<open>
  Receiver back-projection. The adjoint projection of one receiver is a flat vector,
  stored by time slice; slice \<open>tInd\<close> is read back at once and handed to the field
  derivative, which returns a pair: a contribution to the accumulator and one to the
  gradient.
\<close>

definition chunk :: "nat \<Rightarrow> nat \<Rightarrow> vec \<Rightarrow> vec" where
  "chunk n t x = take n (drop (t * n) x)"

definition Jtvec_rx_time ::
  "simulation \<Rightarrow> nat \<Rightarrow> source \<Rightarrow> string \<Rightarrow> (vec \<Rightarrow> nat \<Rightarrow> source \<Rightarrow> vec \<Rightarrow> zvec \<times> zvec) \<Rightarrow> vec \<Rightarrow>
   nat \<Rightarrow> deriv_store \<times> vec \<Rightarrow> error + (deriv_store \<times> vec)" where
  "Jtvec_rx_time s i src pf df_duTFun PT_v = (\<lambda>tInd (df_duT_v, JTv).
     let cur = df_duTFun (model s) tInd src (chunk (storage_size s pf) tInd PT_v);
         key = (i, fieldType (sim_class s) @ ''Deriv'', tInd)
     in Inr (df_duT_v(key := zadd (df_duT_v key) (fst cur)), vadd_z JTv (snd cur)))"

definition Jtvec_rx ::
  "simulation \<Rightarrow> (nat \<Rightarrow> nat \<Rightarrow> vec) \<Rightarrow> nat \<Rightarrow> source \<Rightarrow>
   nat \<times> receiver \<Rightarrow> deriv_store \<times> vec \<Rightarrow> error + (deriv_store \<times> vec)" where
  "Jtvec_rx s v i src = (\<lambda>(j, rx) acc.
     let PT_v = rx_evalDeriv rx (v i j) True
     in case fieldsDerivT s (projField rx) of
          None \<Rightarrow> Inl TypeError
        | Some df_duTFun \<Rightarrow>
            for_each (Jtvec_rx_time s i src (projField rx) df_duTFun PT_v)
              [0..<length (time_steps s) + 1] acc)"

definition Jtvec_src ::
  "simulation \<Rightarrow> (nat \<Rightarrow> nat \<Rightarrow> vec) \<Rightarrow> nat \<times> source \<Rightarrow> deriv_store \<times> vec \<Rightarrow> error + (deriv_store \<times> vec)" where
  "Jtvec_src s v = (\<lambda>(i, src) (df_duT_v, JTv).
     let fld = fieldType (sim_class s);
         df0 = (\<lambda>key. if fst key = i \<and> fst (snd key) = fld @ ''Deriv''
                          \<and> snd (snd key) < length (time_steps s) + 1
                       then Arr (zeros (storage_size s fld)) else df_duT_v key)
     in for_each (Jtvec_rx s v i src) (enumerate 0 (receiver_list src)) (df0, JTv))"

text \<open>
  The backward loop. Its state: the factorization in flight, the local \<^verbatim>\<open>Asubdiag\<close>
  (unbound until the first assignment), \<^verbatim>\<open>ATinv_df_duT_v\<close>, the gradient and the
  simulation.
\<close>

type_synonym jtvec_state = "nat option \<times> mat option \<times> vec list \<times> vec \<times> simulation"

definition Jtvec_clean_if_changed :: "nat \<Rightarrow> nat option \<times> simulation \<Rightarrow> nat option \<times> simulation" where
  "Jtvec_clean_if_changed tInd = (\<lambda>(AdiagTinv0, s).
     (case AdiagTinv0 of
        Some h \<Rightarrow>
          if int tInd \<le> nT s \<and> time_steps s ! tInd \<noteq> time_steps s ! (tInd + 1)
          then (None, if forward_only s then clean h s else s)
          else (Some h, s)
      | None \<Rightarrow> (None, s)))"

definition Jtvec_factor_if_none :: "nat \<Rightarrow> nat option \<times> simulation \<Rightarrow> error + (nat option \<times> simulation)" where
  "Jtvec_factor_if_none tInd = (\<lambda>(AdiagTinv0, s).
     (case AdiagTinv0 of
        Some h \<Rightarrow> Inr (Some h, s)
      | None \<Rightarrow>
          if forward_only s then
            bind_err (getAdiag s (int tInd)) (\<lambda>Adiag.
              let (h, s') = solver (mat_T Adiag) s in Inr (Some h, s'))
          else
            let dt = time_steps s ! tInd
            in (case ATinv s of
                  None \<Rightarrow> Inl AttributeError
                | Some d \<Rightarrow> bind_err (dict_get d dt) (\<lambda>x. Inr (x, s)))))"

definition Jtvec_source ::
  "vec list list \<Rightarrow> deriv_store \<Rightarrow> nat \<Rightarrow> nat option \<Rightarrow> mat option \<Rightarrow> simulation \<Rightarrow>
   nat \<times> source \<Rightarrow> vec list \<times> vec \<Rightarrow> error + (vec list \<times> vec)" where
  "Jtvec_source f df_duT_v tInd AdiagTinv Asubdiag s = (\<lambda>(isrc, src) (ATinv_df_duT_v, JTv).
     let fld = fieldType (sim_class s);
         rhs = dense (storage_size s fld) (df_duT_v (isrc, fld @ ''Deriv'', tInd + 1))
     in bind_err
          (if int tInd \<ge> nT s - 1 then apply_opt s AdiagTinv rhs
           else if int tInd > - 1 then
             (case Asubdiag of
                None \<Rightarrow> Inl NameError
              | Some As \<Rightarrow>
                  apply_opt s AdiagTinv (vsub rhs (mat_vec (mat_T As) (ATinv_df_duT_v ! isrc))))
           else Inr (ATinv_df_duT_v ! isrc)) (\<lambda>x.
        bind_err (f_get f tInd isrc) (\<lambda>u.
        bind_err (getAsubdiagDeriv s (int tInd) u x True) (\<lambda>dAsubdiagT_dm_v.
        bind_err (getRHSDeriv s (int tInd + 1) src x True) (\<lambda>dRHST_dm_v.
        bind_err (f_get f (tInd + 1) isrc) (\<lambda>un_src.
        bind_err (getAdiagDeriv s (int tInd) un_src x True) (\<lambda>dAT_dm_v.
          Inr (ATinv_df_duT_v[isrc := x],
               vadd_z JTv (zadd (zsub (zneg dAT_dm_v) dAsubdiagT_dm_v) dRHST_dm_v)))))))))"

definition Jtvec_step ::
  "vec list list \<Rightarrow> deriv_store \<Rightarrow> source list \<Rightarrow> nat \<Rightarrow> jtvec_state \<Rightarrow> error + jtvec_state" where
  "Jtvec_step f df_duT_v Srcs tInd = (\<lambda>(AdiagTinv0, Asubdiag0, ATinv_df_duT_v, JTv, s0).
     bind_err (Jtvec_factor_if_none tInd (Jtvec_clean_if_changed tInd (AdiagTinv0, s0)))
       (\<lambda>(AdiagTinv, s).
     bind_err (if int tInd < nT s - 1
               then bind_err (getAsubdiag s (int tInd + 1)) (\<lambda>As. Inr (Some As))
               else Inr Asubdiag0) (\<lambda>Asubdiag.
     bind_err (for_each (Jtvec_source f df_duT_v tInd AdiagTinv Asubdiag s) (enumerate 0 Srcs)
                 (ATinv_df_duT_v, JTv)) (\<lambda>(x', JTv').
       Inr (AdiagTinv, Asubdiag, x', JTv', s)))))"

text \<open>
  What the common part leaves behind for the rest of the method: the fields, the
  accumulator \<^verbatim>\<open>df_duT_v\<close>, \<^verbatim>\<open>Asubdiag\<close>, \<^verbatim>\<open>ATinv_df_duT_v\<close>, \<^verbatim>\<open>JTv\<close> and the
  simulation.
\<close>

type_synonym jtvec_locals =
  "vec list list \<times> deriv_store \<times> mat option \<times> vec list \<times> vec \<times> simulation"

definition Jtvec_backsolve ::
  "vec \<Rightarrow> (nat \<Rightarrow> nat \<Rightarrow> vec) \<Rightarrow> vec list list option \<Rightarrow> simulation \<Rightarrow> error + jtvec_locals" where
  "Jtvec_backsolve m v f_opt s0 =
     bind_err (case f_opt of None \<Rightarrow> fields m s0 | Some f \<Rightarrow> Inr (f, s0)) (\<lambda>(f, s1).
     bind_err (Jtvec_factor (set_model m s1)) (\<lambda>s2.
     bind_err (the_survey s2) (\<lambda>Srcs.
     bind_err (if Srcs = [] then Inl IndexError else f_get f 0 0) (\<lambda>u00.
       let ATinv_df_duT_v = map (\<lambda>_. zeros (length u00)) Srcs;
           JTv = zeros (length m)
       in bind_err (for_each (Jtvec_src s2 v) (enumerate 0 Srcs) ((\<lambda>_. Zero), JTv))
            (\<lambda>(df_duT_v, JTv1).
          bind_err (for_each (Jtvec_step f df_duT_v Srcs) (rev [0..<length (time_steps s2)])
                      (None, None, ATinv_df_duT_v, JTv1, s2))
            (\<lambda>(AdiagTinv, Asubdiag, x, JTv2, s3).
             let s4 = (case AdiagTinv of
                         Some h \<Rightarrow> if forward_only s3 then clean h s3 else s3
                       | None \<Rightarrow> s3)
             in Inr (f, df_duT_v, Asubdiag, x, JTv2, s4)))))))"

text \<open>\<^verbatim>\<open>BaseTDEMSimulation.Jtvec\<close> returns the gradient after the backward loop.\<close>

definition Jtvec_base ::
  "vec \<Rightarrow> (nat \<Rightarrow> nat \<Rightarrow> vec) \<Rightarrow> vec list list option \<Rightarrow> simulation \<Rightarrow> error + (vec \<times> simulation)" where
  "Jtvec_base m v f_opt s0 =
     bind_err (Jtvec_backsolve m v f_opt s0) (\<lambda>(f, df_duT_v, Asubdiag, x, JTv, s).
       Inr (JTv, s))"

text \<open>
  \<^verbatim>\<open>Simulation3DElectricField.Jtvec\<close> goes on with the initial condition of the
  galvanic sources. In \<^verbatim>\<open>Grad * (self.Adcinv * (Grad.T * (... - Asubdiag.T * ...)))\<close>
  Python evaluates \<^verbatim>\<open>self.Adcinv\<close> before it reaches \<^verbatim>\<open>Asubdiag\<close>.
\<close>

definition Jtvec_galvanic_source ::
  "vec list list \<Rightarrow> deriv_store \<Rightarrow> mat option \<Rightarrow>
   nat \<times> source \<Rightarrow> vec list \<times> vec \<times> simulation \<Rightarrow> error + (vec list \<times> vec \<times> simulation)" where
  "Jtvec_galvanic_source f df_duT_v Asubdiag = (\<lambda>(isrc, src) (ATinv_df_duT_v, JTv, s).
     if srcType src = ''galvanic'' then
       let Grad = nodal_gradient (mesh s);
           fld = fieldType (sim_class s)
       in bind_err (Adcinv s) (\<lambda>(h, s').
          bind_err (case Asubdiag of None \<Rightarrow> Inl NameError | Some As \<Rightarrow> Inr As) (\<lambda>As.
            let x = mat_vec Grad (apply_factor s' h (mat_vec (mat_T Grad)
                      (vsub (dense (storage_size s' fld) (df_duT_v (isrc, fld @ ''Deriv'', 0)))
                            (mat_vec (mat_T As) (ATinv_df_duT_v ! isrc)))))
            in bind_err (getRHSDeriv s' 0 src x True) (\<lambda>dRHST_dm_v.
               bind_err (f_get f 0 isrc) (\<lambda>un_src.
                 let dAT_dm_v = MeSigmaDeriv (physics s') (model s') un_src x True
                 in Inr (ATinv_df_duT_v[isrc := x],
                         vadd_z JTv (zadd (zneg dAT_dm_v) dRHST_dm_v), s')))))
     else Inr (ATinv_df_duT_v, JTv, s))"

definition Jtvec_galvanic :: "source list \<Rightarrow> jtvec_locals \<Rightarrow> error + (vec \<times> simulation)" where
  "Jtvec_galvanic Srcs = (\<lambda>(f, df_duT_v, Asubdiag, x, JTv, s).
     bind_err (for_each (Jtvec_galvanic_source f df_duT_v Asubdiag) (enumerate 0 Srcs) (x, JTv, s))
       (\<lambda>(x', JTv', s'). Inr (JTv', s')))"

definition Jtvec_e ::
  "vec \<Rightarrow> (nat \<Rightarrow> nat \<Rightarrow> vec) \<Rightarrow> vec list list option \<Rightarrow> simulation \<Rightarrow> error + (vec \<times> simulation)" where
  "Jtvec_e m v f_opt s0 =
     bind_err (Jtvec_backsolve m v f_opt s0) (\<lambda>loc.
       bind_err (the_survey (snd (snd (snd (snd (snd loc)))))) (\<lambda>Srcs. Jtvec_galvanic Srcs loc))"

definition Jtvec ::
  "vec \<Rightarrow> (nat \<Rightarrow> nat \<Rightarrow> vec) \<Rightarrow> vec list list option \<Rightarrow> simulation \<Rightarrow> error + (vec \<times> simulation)" where
  "Jtvec m v f_opt s = (case sim_class s of
      Simulation3DMagneticFluxDensity \<Rightarrow> Jtvec_base m v f_opt s
    | Simulation3DElectricField \<Rightarrow> Jtvec_e m v f_opt s
    | Simulation3DMagneticField \<Rightarrow> Jtvec_base m v f_opt s
    | Simulation3DCurrentDensity \<Rightarrow> Jtvec_base m v f_opt s)"

text \<open>
  The adjoint test of the repository, \<^verbatim>\<open>JvecVsJtvecTest\<close>: the two inner products
  \<^verbatim>\<open>V1 = d.dot(prb.Jvec(m0, m))\<close> and \<^verbatim>\<open>V2 = m.dot(prb.Jtvec(m0, d))\<close>, computed one
  after the other on the same simulation; the test asserts that they agree. The data
  vector \<open>d\<close> is read as the data of a survey with one source and one receiver.
\<close>

definition JvecVsJtvecTest :: "vec \<Rightarrow> vec \<Rightarrow> vec \<Rightarrow> simulation \<Rightarrow> error + (real \<times> real)" where
  "JvecVsJtvecTest m0 m d s =
     bind_err (Jvec m0 m None s) (\<lambda>(Jv, s1).
     bind_err (Jtvec m0 (\<lambda>i j. d) None s1) (\<lambda>(JTv, s2).
       Inr (dot d Jv, dot m JTv)))"

subsection \<open>A run-length function and a small simulation\<close>

text \<open>
  \<open>run_start th ts k\<close> is the first index of the run of steps that ends at \<open>k\<close> and
  whose consecutive lengths never differ by more than \<open>th\<close>: the step at which the
  forward stepper made the factorization it still holds at step \<open>k\<close>.
\<close>

fun run_start :: "real \<Rightarrow> real list \<Rightarrow> nat \<Rightarrow> nat" where
  "run_start th ts 0 = 0"
| "run_start th ts (Suc k) =
     (if \<bar>ts ! Suc k - ts ! k\<bar> > th then Suc k else run_start th ts k)"

text \<open>
  Two states of one simulation that differ at most in the factorizations: the heap,
  the two dictionaries and the steady-state cache.
\<close>

definition same_setup :: "simulation \<Rightarrow> simulation \<Rightarrow> bool" where
  "same_setup s s' \<longleftrightarrow>
     sim_class s' = sim_class s \<and> mesh s' = mesh s \<and> physics s' = physics s
     \<and> survey s' = survey s \<and> solve s' = solve s \<and> fieldsDeriv s' = fieldsDeriv s
     \<and> fieldsDerivT s' = fieldsDerivT s \<and> storage_size s' = storage_size s
     \<and> time_steps s' = time_steps s \<and> t0 s' = t0 s \<and> dt_threshold s' = dt_threshold s
     \<and> forward_only s' = forward_only s \<and> makeASymmetric s' = makeASymmetric s
     \<and> model s' = model s"

text \<open>Two calls of \<^verbatim>\<open>fields\<close> in a row, and what a result leaves in the caches.\<close>

definition fields_twice ::
  "vec \<Rightarrow> vec \<Rightarrow> simulation \<Rightarrow> error + (vec list list \<times> simulation) \<times> (vec list list \<times> simulation)" where
  "fields_twice m m' s =
     bind_err (fields m s) (\<lambda>(f1, s1).
     bind_err (fields m' s1) (\<lambda>(f2, s2). Inr ((f1, s1), (f2, s2))))"

definition caches ::
  "simulation \<Rightarrow> factorization list \<times> (real \<times> nat option) list option \<times> (real \<times> nat option) list option \<times> nat option" where
  "caches s = (heap s, Ainv s, ATinv s, Adcinv_cache s)"


text \<open>
  The smallest mesh: one face, one edge, every operator the 1-by-1 identity, a solver
  that is exact on 1-by-1 systems, and one source with one receiver. The source term
  \<open>s_m\<close> of the source is the constant \<open>c\<close>.
\<close>

definition ex_mesh :: mesh where
  "ex_mesh = \<lparr>edge_curl = [[1]], nodal_gradient = [[1]], face_divergence = [[1]],
              cell_volumes = [1], n_faces = 1, n_edges = 1\<rparr>"

definition ex_physics :: physics where
  "ex_physics = \<lparr>MeSigma = (\<lambda>m. [[1]]), MeSigmaI = (\<lambda>m. [[1]]), MfMui = (\<lambda>m. [[1]]),
                 MfRho = (\<lambda>m. [[1]]), MfRhoI = (\<lambda>m. [[1]]), MeMu = (\<lambda>m. [[1]]),
                 MeMuI = (\<lambda>m. [[1]]),
                 MeSigmaDeriv = (\<lambda>m u v a. Arr (zeros (length m))),
                 MeSigmaIDeriv = (\<lambda>m u v a. Arr (zeros (length m))),
                 MfRhoDeriv = (\<lambda>m u v a. Arr (zeros (length m))),
                 MfRhoIDeriv = (\<lambda>m u v a. Arr (zeros (length m)))\<rparr>"

definition ex_solve :: "mat \<Rightarrow> vec \<Rightarrow> vec" where
  "ex_solve A b = (case (A, b) of ((a # _) # _, x # _) \<Rightarrow> [x / a] | _ \<Rightarrow> b)"

definition ex_source :: "string \<Rightarrow> real \<Rightarrow> source" where
  "ex_source ty c =
     \<lparr>srcType = ty,
      receiver_list = [\<lparr>projField = ''b'', getP = [[1, 1, 1]]\<rparr>],
      src_eval = (\<lambda>m t. (Arr [c], Zero)),
      src_evalDeriv = (\<lambda>m t a. ((\<lambda>v. Zero), (\<lambda>v. Zero))),
      Initial = (\<lambda>fld m. Zero),
      InitialDeriv = (\<lambda>fld m v. Zero)\<rparr>"

definition ex_sim :: "formulation \<Rightarrow> source list \<Rightarrow> real list \<Rightarrow> real \<Rightarrow> bool \<Rightarrow> simulation" where
  "ex_sim cls srcs ts th fwd =
     \<lparr>sim_class = cls, mesh = ex_mesh, physics = ex_physics, survey = Some srcs,
      solve = ex_solve,
      fieldsDeriv = (\<lambda>name. Some (\<lambda>m t src du v. Arr du)),
      fieldsDerivT = (\<lambda>name. Some (\<lambda>m t src w. (Arr w, Zero))),
      storage_size = (\<lambda>name. 1),
      time_steps = ts, t0 = 0, dt_threshold = th, forward_only = fwd,
      makeASymmetric = False, model = [1], heap = [], Ainv = None, ATinv = None,
      Adcinv_cache = None\<rparr>"

text \<open>
  The same mesh with mass matrices whose derivatives do not vanish: every derivative
  is the product \<open>u * v\<close> of its two arguments, which in one dimension is its own
  adjoint. \<open>ex_source_rx\<close> is \<open>ex_source\<close> with the projection matrix of its receiver
  and the value \<open>u0\<close> of its initial field as parameters.
\<close>

definition ex_physics_uv :: physics where
  "ex_physics_uv = \<lparr>MeSigma = (\<lambda>m. [[1]]), MeSigmaI = (\<lambda>m. [[1]]), MfMui = (\<lambda>m. [[1]]),
                 MfRho = (\<lambda>m. [[1]]), MfRhoI = (\<lambda>m. [[1]]), MeMu = (\<lambda>m. [[1]]),
                 MeMuI = (\<lambda>m. [[1]]),
                 MeSigmaDeriv = (\<lambda>m u v a. Arr (map2 (*) u v)),
                 MeSigmaIDeriv = (\<lambda>m u v a. Arr (map2 (*) u v)),
                 MfRhoDeriv = (\<lambda>m u v a. Arr (map2 (*) u v)),
                 MfRhoIDeriv = (\<lambda>m u v a. Arr (map2 (*) u v))\<rparr>"

definition ex_source_rx :: "string \<Rightarrow> real \<Rightarrow> mat \<Rightarrow> real \<Rightarrow> source" where
  "ex_source_rx ty c P u0 =
     \<lparr>srcType = ty,
      receiver_list = [\<lparr>projField = ''b'', getP = P\<rparr>],
      src_eval = (\<lambda>m t. (Arr [c], Zero)),
      src_evalDeriv = (\<lambda>m t a. ((\<lambda>v. Zero), (\<lambda>v. Zero))),
      Initial = (\<lambda>fld m. Arr [u0]),
      InitialDeriv = (\<lambda>fld m v. Zero)\<rparr>"

definition ex_sim_uv :: "formulation \<Rightarrow> source list \<Rightarrow> real list \<Rightarrow> real \<Rightarrow> bool \<Rightarrow> simulation" where
  "ex_sim_uv cls srcs ts th fwd = (ex_sim cls srcs ts th fwd)\<lparr>physics := ex_physics_uv\<rparr>"

subsection \<open>Predicates of the statements and of the loop invariants\<close>

text \<open>
  One step of the recurrence with the operator of step \<open>j\<close>: the columns
  \<open>Adiag(j)\<^sup>-\<^sup>1 (RHS(k + 1) - Asubdiag(k) u\<^sub>k)\<close>, all solved with the same operator.
\<close>

definition solve_step :: "simulation \<Rightarrow> vec list list \<Rightarrow> nat \<Rightarrow> nat \<Rightarrow> error + vec list" where
  "solve_step s f j k =
     bind_err (getAdiag s (int j)) (\<lambda>A.
     bind_err (getRHS s (int k + 1)) (\<lambda>rhs.
     bind_err (getAsubdiag s (int k)) (\<lambda>As.
       Inr (map2 (\<lambda>r u. solve s A (vsub r (mat_vec As u))) rhs (f ! k)))))"

text \<open>
  Slice \<open>k + 1\<close> of a fields object obeys the recurrence, with the operator of the
  step at which the run of \<open>k\<close> began.
\<close>

definition recurrence_at :: "simulation \<Rightarrow> vec list list \<Rightarrow> nat \<Rightarrow> bool" where
  "recurrence_at s f k \<longleftrightarrow>
     (\<exists>A rhs As.
        getAdiag s (int (run_start (dt_threshold s) (time_steps s) k)) = Inr A
        \<and> getRHS s (int k + 1) = Inr rhs
        \<and> getAsubdiag s (int k) = Inr As
        \<and> f ! (k + 1) = map2 (\<lambda>r u. solve s A (vsub r (mat_vec As u))) rhs (f ! k))"

text \<open>
  Invariants of the stepping loop: the dictionary \<^verbatim>\<open>Ainv\<close> holds, for every step
  length, a factorization of the operator of that length; the factorization in flight
  is the one of the step at which the current run began.
\<close>

definition dict_ok :: "simulation \<Rightarrow> bool" where
  "dict_ok s \<longleftrightarrow>
     (\<exists>d. Ainv s = Some d \<and>
        (\<forall>j<length (time_steps s). \<exists>h. map_of d (time_steps s ! j) = Some (Some h)
            \<and> h < length (heap s) \<and> getAdiag s (int j) = Inr (fmat (heap s ! h))))"

definition holds_factor :: "simulation \<Rightarrow> nat \<Rightarrow> nat option \<Rightarrow> simulation \<Rightarrow> bool" where
  "holds_factor s0 j a s \<longleftrightarrow>
     (\<exists>h. a = Some h \<and> h < length (heap s)
        \<and> getAdiag s0 (int (run_start (dt_threshold s0) (time_steps s0) j)) = Inr (fmat (heap s ! h)))"

definition fields_inv :: "simulation \<Rightarrow> nat \<Rightarrow> fields_state \<Rightarrow> bool" where
  "fields_inv s0 k = (\<lambda>(a, f, s).
     same_setup s0 s \<and> length f = length (time_steps s0) + 1
     \<and> (forward_only s0 \<or> s = s0)
     \<and> (case k of 0 \<Rightarrow> a = None | Suc j \<Rightarrow> holds_factor s0 j a s)
     \<and> (\<forall>j<k. recurrence_at s0 f j))"

text \<open>
  \<open>made_for tr s ks news\<close>: the factorizations \<open>news\<close> are fresh and are, key by key,
  those of the operators of the step lengths \<open>ks\<close> (transposed when \<open>tr\<close>);
  \<open>points_to d ks base\<close>: the dictionary maps the keys to consecutive references from
  \<open>base\<close> on.
\<close>

definition made_for :: "bool \<Rightarrow> simulation \<Rightarrow> real list \<Rightarrow> factorization list \<Rightarrow> bool" where
  "made_for tr s ks news \<longleftrightarrow>
     list_all2 (\<lambda>dt fz. \<not> cleaned fz \<and>
        (\<exists>j A. j < length (time_steps s) \<and> time_steps s ! j = dt
           \<and> getAdiag s (int j) = Inr A \<and> fmat fz = (if tr then mat_T A else A))) ks news"

definition points_to :: "(real \<times> nat option) list \<Rightarrow> real list \<Rightarrow> nat \<Rightarrow> bool" where
  "points_to d ks base \<longleftrightarrow> (\<forall>i<length ks. map_of d (ks ! i) = Some (Some (base + i)))"

text \<open>
  \<open>aged hp0 hp\<close>: the same factorizations, some more of them cleaned.
  \<open>all_cleaned d hp\<close>: every value of the dictionary is a factorization, cleaned in
  \<open>hp\<close>. \<open>rounded s\<close>: the step lengths after rounding through \<^verbatim>\<open>dt_threshold\<close>.
\<close>

definition aged :: "factorization list \<Rightarrow> factorization list \<Rightarrow> bool" where
  "aged hp0 hp \<longleftrightarrow>
     length hp = length hp0 \<and> map fmat hp = map fmat hp0
     \<and> (\<forall>h<length hp0. cleaned (hp0 ! h) \<longrightarrow> cleaned (hp ! h))"

definition all_cleaned :: "(real \<times> nat option) list \<Rightarrow> factorization list \<Rightarrow> bool" where
  "all_cleaned d hp \<longleftrightarrow>
     (\<forall>(k, x)\<in>set d. \<exists>h. x = Some h \<and> (h < length hp \<longrightarrow> cleaned (hp ! h)))"

definition all_None :: "(real \<times> nat option) list \<Rightarrow> bool" where
  "all_None d \<longleftrightarrow> (\<forall>(k, x)\<in>set d. x = None)"

definition rounded :: "simulation \<Rightarrow> real list" where
  "rounded s = map (\<lambda>dt. dt_threshold s * np_round (dt / dt_threshold s)) (time_steps s)"

text \<open>
  Zero vectors, sources whose initial field and source terms are zero at every time,
  and solvers that return zero on a zero right-hand side, as any linear solve does.
\<close>

definition is_zero :: "vec \<Rightarrow> bool" where
  "is_zero v \<longleftrightarrow> (\<forall>x\<in>set v. x = 0)"

fun is_zero_z :: "zvec \<Rightarrow> bool" where
  "is_zero_z Zero = True"
| "is_zero_z (Arr v) = is_zero v"

definition zero_sources :: "simulation \<Rightarrow> bool" where
  "zero_sources s \<longleftrightarrow>
     (\<forall>src\<in>set (case survey s of None \<Rightarrow> [] | Some srcs \<Rightarrow> srcs).
        is_zero_z (Initial src (fieldType (sim_class s)) (model s))
        \<and> (\<forall>t. is_zero_z (fst (src_eval src (model s) t))
               \<and> is_zero_z (snd (src_eval src (model s) t))))"

definition zero_preserving :: "(mat \<Rightarrow> vec \<Rightarrow> vec) \<Rightarrow> bool" where
  "zero_preserving sv \<longleftrightarrow> (\<forall>A b. is_zero b \<longrightarrow> is_zero (sv A b))"

text \<open>
  \<open>dc_frame s s'\<close>: the two states also agree on the steady-state cache.
  \<open>through_gradient s h w\<close> is \<^verbatim>\<open>Grad * (Adcinv * (Grad.T * w))\<close>: a vector routed
  through the nodal gradient and the steady-state factorization \<open>h\<close>.
\<close>

definition dc_frame :: "simulation \<Rightarrow> simulation \<Rightarrow> bool" where
  "dc_frame s s' \<longleftrightarrow> same_setup s s' \<and> Adcinv_cache s' = Adcinv_cache s"


text \<open>
  The step lengths that \<^verbatim>\<open>fields\<close> steps with: those of the simulation, rounded
  through \<^verbatim>\<open>dt_threshold\<close> when the call is the one that creates the dictionary
  \<^verbatim>\<open>Ainv\<close>.
\<close>

definition stepping_lengths :: "simulation \<Rightarrow> real list" where
  "stepping_lengths s =
     (if forward_only s \<or> Ainv s \<noteq> None then time_steps s else rounded s)"



section \<open>Verified properties\<close>

lemmas ex_defs = ex_sim_def ex_source_def ex_mesh_def ex_physics_def ex_solve_def

lemmas num_defs = vadd_def vsub_def vneg_def vscale_def zeros_def dot_def mat_vec_def
  mat_T_def mat_mul_def mat_add_def mat_scale_def speye_def

lemmas getAdiag_defs = getAdiag_def getAdiag_b_def getAdiag_e_def getAdiag_h_def getAdiag_j_def

subsection \<open>Sequencing and loops\<close>

lemma bind_err_Inr_iff:
  "bind_err r k = Inr y \<longleftrightarrow> (\<exists>x. r = Inr x \<and> k x = Inr y)"
  by (cases r) (simp_all add: bind_err_def)

lemma bind_err_cong_Inr:
  "(\<And>x. r = Inr x \<Longrightarrow> k1 x = k2 x) \<Longrightarrow> bind_err r k1 = bind_err r k2"
  by (cases r) (simp_all add: bind_err_def)

lemma for_each_cong_inv:
  assumes "I st"
    and "\<And>i st. i \<in> set xs \<Longrightarrow> I st \<Longrightarrow> b1 i st = b2 i st"
    and "\<And>i st st'. i \<in> set xs \<Longrightarrow> I st \<Longrightarrow> b1 i st = Inr st' \<Longrightarrow> I st'"
  shows "for_each b1 xs st = for_each b2 xs st"
  using assms
proof (induction xs arbitrary: st)
  case Nil
  then show ?case by simp
next
  case (Cons i xs)
  have eq: "b1 i st = b2 i st" using Cons.prems by simp
  show ?case
  proof (cases "b1 i st")
    case (Inl e)
    then have "b2 i st = Inl e" using eq by simp
    with Inl show ?thesis by (simp add: bind_err_def)
  next
    case (Inr st')
    have "I st'" using Cons.prems(3)[of i st st'] Cons.prems(1) Inr by simp
    then have "for_each b1 xs st' = for_each b2 xs st'"
    proof (rule Cons.IH)
      fix j st0
      assume "j \<in> set xs" "I st0"
      then show "b1 j st0 = b2 j st0" using Cons.prems(2)[of j st0] by simp
    next
      fix j st0 st1
      assume "j \<in> set xs" "I st0" "b1 j st0 = Inr st1"
      then show "I st1" using Cons.prems(3)[of j st0 st1] by simp
    qed
    moreover have "b2 i st = Inr st'" using eq Inr by simp
    ultimately show ?thesis using Inr by (simp add: bind_err_def)
  qed
qed

lemma for_each_invariant:
  assumes "for_each b xs st = Inr st'" and "I st"
    and "\<And>i st st'. i \<in> set xs \<Longrightarrow> I st \<Longrightarrow> b i st = Inr st' \<Longrightarrow> I st'"
  shows "I st'"
  using assms
proof (induction xs arbitrary: st)
  case Nil
  then show ?case by simp
next
  case (Cons i xs)
  from Cons.prems(1) obtain st1 where s1: "b i st = Inr st1" and r: "for_each b xs st1 = Inr st'"
    by (auto simp: bind_err_Inr_iff)
  have "I st1" using Cons.prems(3)[of i st st1] Cons.prems(2) s1 by simp
  then show ?case
  proof (rule Cons.IH[OF r])
    fix j st0 st2
    assume "j \<in> set xs" "I st0" "b j st0 = Inr st2"
    then show "I st2" using Cons.prems(3)[of j st0 st2] by simp
  qed
qed

subsection \<open>The formulation strategy\<close>



text \<open>
  C7. In the electric-field, magnetic-field and current-density classes
  \<^verbatim>\<open>getRHSDeriv\<close> returns the Zero sentinel, whatever the time index, the source, the
  vector and the adjoint flag.
\<close>

theorem getRHSDeriv_is_Zero:
  "sim_class s \<noteq> Simulation3DMagneticFluxDensity \<Longrightarrow>
   getRHSDeriv s tInd src v adjoint = Inr Zero"
  by (cases "sim_class s")
     (simp_all add: getRHSDeriv_def getRHSDeriv_e_def getRHSDeriv_h_def getRHSDeriv_j_def)

theorem getRHSDeriv_is_Zero_witness:
  "sim_class (ex_sim Simulation3DMagneticField [] [1] 1 True) \<noteq> Simulation3DMagneticFluxDensity
   \<and> getRHSDeriv (ex_sim Simulation3DMagneticField [] [1] 1 True) 5
       (ex_source ''inductive'' 1) [1] True = Inr Zero"
  using getRHSDeriv_is_Zero [of "ex_sim Simulation3DMagneticField [] [1] 1 True" 5
          "ex_source ''inductive'' 1" "[1]" True]
  by (simp add: ex_sim_def)

text \<open>
  C8. Reading \<^verbatim>\<open>Adcinv\<close> on the class without \<^verbatim>\<open>getAdc\<close> raises NotImplementedError
  with the field type in its message. On a class with \<^verbatim>\<open>getAdc\<close> the first read
  factors \<^verbatim>\<open>getAdc()\<close>, one new factorization, and stores it; a read with a stored
  factorization returns it and changes nothing.
\<close>

theorem Adcinv_capability_and_cache:
  "(sim_class s = Simulation3DMagneticFluxDensity \<longrightarrow>
      Adcinv s = Inl (NotImplementedError
        ''Support for galvanic sources has not been implemented for b-formulation''))
   \<and> (sim_class s \<noteq> Simulation3DMagneticFluxDensity \<and> Adcinv_cache s = None
        \<and> getAdc s = Inr A \<longrightarrow>
        (\<exists>s'. Adcinv s = Inr (length (heap s), s')
            \<and> heap s' = heap s @ [\<lparr>fmat = A, cleaned = False\<rparr>]
            \<and> Adcinv_cache s' = Some (length (heap s))
            \<and> Adcinv s' = Inr (length (heap s), s')))
   \<and> (sim_class s \<noteq> Simulation3DMagneticFluxDensity \<and> Adcinv_cache s = Some h \<longrightarrow>
        Adcinv s = Inr (h, s))"
  by (cases "sim_class s")
     (auto simp: Adcinv_def bind_err_def solver_def Let_def)

theorem Adcinv_capability_and_cache_witness:
  "Adcinv (ex_sim Simulation3DMagneticFluxDensity [] [1] 1 True) =
     Inl (NotImplementedError
       ''Support for galvanic sources has not been implemented for b-formulation'')
   \<and> sim_class (ex_sim Simulation3DElectricField [] [1] 1 True) \<noteq> Simulation3DMagneticFluxDensity
   \<and> Adcinv_cache (ex_sim Simulation3DElectricField [] [1] 1 True) = None
   \<and> getAdc (ex_sim Simulation3DElectricField [] [1] 1 True) = Inr [[2]]
   \<and> (\<exists>s'. Adcinv (ex_sim Simulation3DElectricField [] [1] 1 True) = Inr (0, s')
         \<and> heap s' = [\<lparr>fmat = [[2]], cleaned = False\<rparr>] \<and> Adcinv_cache s' = Some 0
         \<and> Adcinv s' = Inr (0, s'))"
proof -
  let ?b = "ex_sim Simulation3DMagneticFluxDensity [] [1] 1 True"
  let ?e = "ex_sim Simulation3DElectricField [] [1] 1 True"
  have b: "sim_class ?b = Simulation3DMagneticFluxDensity"
    by (simp add: ex_sim_def)
  have e: "sim_class ?e \<noteq> Simulation3DMagneticFluxDensity" "Adcinv_cache ?e = None" "heap ?e = []"
    by (simp_all add: ex_sim_def)
  have g: "getAdc ?e = Inr [[2]]"
    by (simp add: getAdc_def getAdc_e_def bump00_def ex_defs num_defs Let_def transpose.simps)
  from Adcinv_capability_and_cache [of ?b "[[2]]" 0] b
  have 1: "Adcinv ?b = Inl (NotImplementedError
             ''Support for galvanic sources has not been implemented for b-formulation'')"
    by blast
  from Adcinv_capability_and_cache [of ?e "[[2]]" 0] e g
  have 2: "\<exists>s'. Adcinv ?e = Inr (0, s')
         \<and> heap s' = [\<lparr>fmat = [[2]], cleaned = False\<rparr>] \<and> Adcinv_cache s' = Some 0
         \<and> Adcinv s' = Inr (0, s')"
    by simp
  from 1 2 e g show ?thesis by blast
qed

subsection \<open>The guard in the forward sensitivity loop\<close>

lemma solver_time_steps [simp]: "time_steps (snd (solver A s)) = time_steps s"
  by (simp add: solver_def)

lemma clean_time_steps [simp]: "time_steps (clean h s) = time_steps s"
  by (simp add: clean_def)

lemma Jvec_clean_if_changed_time_steps:
  "time_steps (snd (Jvec_clean_if_changed tInd dt (a, s))) = time_steps s"
  by (simp add: Jvec_clean_if_changed_def split: option.splits)

lemma factor_if_none_time_steps:
  "factor_if_none tInd dt (a, s) = Inr (a', s') \<Longrightarrow> time_steps s' = time_steps s"
  by (auto simp: factor_if_none_def bind_err_Inr_iff solver_def Let_def split: option.splits if_splits)

lemma step_guard_iff: "step_guard s tInd \<longleftrightarrow> tInd \<noteq> length (time_steps s)"
  by (simp add: step_guard_def)

lemma Jvec_source_eq:
  "step_guard s tInd \<Longrightarrow>
   Jvec_source f v tInd A As s = Jvec_source_unguarded f v tInd A As s"
  by (simp add: fun_eq_iff Jvec_source_def Jvec_source_unguarded_def)

lemma Jvec_step_time_steps:
  "Jvec_step body f v Srcs tInd (a, dun, df, s) = Inr (a', dun', df', s') \<Longrightarrow>
   time_steps s' = time_steps s"
  apply (clarsimp simp: Jvec_step_def bind_err_Inr_iff Let_def)
  apply (drule factor_if_none_time_steps[of _ _ "fst (Jvec_clean_if_changed tInd (time_steps s ! tInd) (a, s))" "snd (Jvec_clean_if_changed tInd (time_steps s ! tInd) (a, s))", simplified])
  apply (simp add: Jvec_clean_if_changed_time_steps)
  done

lemma Jvec_step_eq:
  assumes "tInd < length (time_steps s)"
  shows "Jvec_step Jvec_source f v Srcs tInd (a, dun, df, s) =
         Jvec_step Jvec_source_unguarded f v Srcs tInd (a, dun, df, s)"
proof -
  let ?c = "Jvec_clean_if_changed tInd (time_steps s ! tInd) (a, s)"
  have "\<And>a' s'. factor_if_none tInd (time_steps s ! tInd) ?c = Inr (a', s') \<Longrightarrow>
        step_guard s' tInd"
  proof -
    fix a' s' assume "factor_if_none tInd (time_steps s ! tInd) ?c = Inr (a', s')"
    then have "time_steps s' = time_steps (snd ?c)"
      using factor_if_none_time_steps[of tInd _ "fst ?c" "snd ?c" a' s'] by simp
    then have "time_steps s' = time_steps s"
      by (simp add: Jvec_clean_if_changed_time_steps)
    with assms show "step_guard s' tInd" by (simp add: step_guard_iff)
  qed
  then show ?thesis
    unfolding Jvec_step_def
    by (auto simp: Let_def Jvec_source_eq intro!: bind_err_cong_Inr)
qed

text \<open>
  C10. In \<^verbatim>\<open>Jvec\<close> the guard \<^verbatim>\<open>tInd != len(self.time_steps + 1)\<close> compares the loop
  index with the number of time steps, which the index never reaches: the guard holds
  at every step, and the method without the guard is the same function.
\<close>

theorem Jvec_guard_redundant:
  "(\<forall>tInd < length (time_steps s). step_guard s tInd) \<and>
   Jvec m v f_opt s = Jvec_unguarded m v f_opt s"
proof
  show "\<forall>tInd < length (time_steps s). step_guard s tInd"
    by (simp add: step_guard_iff)
next
  have loop: "for_each (Jvec_step Jvec_source f v Srcs) [0..<length (time_steps s2)] (a, dun, df, s2)
            = for_each (Jvec_step Jvec_source_unguarded f v Srcs) [0..<length (time_steps s2)] (a, dun, df, s2)"
    for f Srcs s2 a dun df
  proof (rule for_each_cong_inv[where I = "\<lambda>(a, dun, df, s'). time_steps s' = time_steps s2"])
    show "case (a, dun, df, s2) of (a, dun, df, s') \<Rightarrow> time_steps s' = time_steps s2" by simp
  next
    fix i and st :: jvec_state
    assume "i \<in> set [0..<length (time_steps s2)]"
      and "case st of (a, dun, df, s') \<Rightarrow> time_steps s' = time_steps s2"
    then show "Jvec_step Jvec_source f v Srcs i st = Jvec_step Jvec_source_unguarded f v Srcs i st"
      by (cases st) (auto intro: Jvec_step_eq)
  next
    fix i and st st' :: jvec_state
    assume "case st of (a, dun, df, s') \<Rightarrow> time_steps s' = time_steps s2"
      and "Jvec_step Jvec_source f v Srcs i st = Inr st'"
    then show "case st' of (a, dun, df, s') \<Rightarrow> time_steps s' = time_steps s2"
      by (cases st, cases st') (auto dest: Jvec_step_time_steps)
  qed
  show "Jvec m v f_opt s = Jvec_unguarded m v f_opt s"
    unfolding Jvec_def Jvec_unguarded_def Jvec_with_def
    by (auto simp: Let_def loop intro!: bind_err_cong_Inr)
qed

theorem Jvec_guard_redundant_witness:
  "(0::nat) < length (time_steps (ex_sim Simulation3DElectricField [ex_source ''inductive'' 1] [1, 2] 1 True))
   \<and> step_guard (ex_sim Simulation3DElectricField [ex_source ''inductive'' 1] [1, 2] 1 True) 0
   \<and> map_sum id fst (Jvec_unguarded [1] [1] None
        (ex_sim Simulation3DElectricField [ex_source ''inductive'' 1] [1, 2] 1 True)) = Inr [0]"
proof -
  let ?s = "ex_sim Simulation3DElectricField [ex_source ''inductive'' 1] [1, 2] 1 True"
  have len: "(0::nat) < length (time_steps ?s)"
    by (simp add: ex_sim_def)
  have run: "map_sum id fst (Jvec [1] [1] None ?s) = Inr [0]"
    by code_simp
  from Jvec_guard_redundant [of ?s "[1]" "[1]" None] len run show ?thesis
    by simp
qed

subsection \<open>Reuse of the factorization in flight\<close>

text \<open>
  C3. The three loops at the step lengths \<open>[1, 3/2]\<close> with \<open>dt_threshold = 1\<close> and
  nothing stored: the two lengths agree within the threshold. \<^verbatim>\<open>fields\<close> makes one
  factorization and uses it for both steps. \<^verbatim>\<open>Jvec\<close> and \<^verbatim>\<open>Jtvec\<close> compare the
  lengths with \<^verbatim>\<open>!=\<close>: after the one of \<^verbatim>\<open>fields\<close> each makes two more, one per step.
\<close>

theorem sensitivity_loops_ignore_dt_threshold:
  "\<bar>(3 / 2 :: real) - 1\<bar> \<le> 1
   \<and> map_sum id (\<lambda>(f, s). map fmat (heap s))
        (fields [1] (ex_sim Simulation3DMagneticFluxDensity [ex_source ''inductive'' 1] [1, 3 / 2] 1 True))
       = Inr [[[2]]]
   \<and> map_sum id (\<lambda>(Jv, s). map fmat (heap s))
        (Jvec [1] [1] None (ex_sim Simulation3DMagneticFluxDensity [ex_source ''inductive'' 1] [1, 3 / 2] 1 True))
       = Inr [[[2]], [[2]], [[5 / 3]]]
   \<and> map_sum id (\<lambda>(JTv, s). map fmat (heap s))
        (Jtvec [1] (\<lambda>i j. [1]) None (ex_sim Simulation3DMagneticFluxDensity [ex_source ''inductive'' 1] [1, 3 / 2] 1 True))
       = Inr [[[2]], [[5 / 3]], [[2]]]"
  by code_simp

subsection \<open>The forward stepper: the loop invariant\<close>

lemma same_setup_refl [simp]: "same_setup s s"
  by (simp add: same_setup_def)

lemma same_setup_trans: "same_setup s s' \<Longrightarrow> same_setup s' s'' \<Longrightarrow> same_setup s s''"
  by (simp add: same_setup_def)

lemma same_setup_sym: "same_setup s s' \<Longrightarrow> same_setup s' s"
  by (simp add: same_setup_def)

lemma same_setup_solver: "same_setup s (snd (solver A s))"
  by (simp add: same_setup_def solver_def)

lemma same_setup_clean: "same_setup s (clean h s)"
  by (simp add: same_setup_def clean_def)

lemma same_setup_times: "same_setup s s' \<Longrightarrow> times s' = times s"
  by (simp add: same_setup_def times_def)

lemma same_setup_getSourceTerm: "same_setup s s' \<Longrightarrow> getSourceTerm s' k = getSourceTerm s k"
  by (simp add: getSourceTerm_def the_survey_def same_setup_times) (simp add: same_setup_def)

lemma same_setup_getAdiag: "same_setup s s' \<Longrightarrow> getAdiag s' k = getAdiag s k"
  by (cases "sim_class s") (simp_all add: same_setup_def getAdiag_defs assert_tInd_def nT_def cong: if_cong)

lemma same_setup_getAsubdiag: "same_setup s s' \<Longrightarrow> getAsubdiag s' k = getAsubdiag s k"
  by (cases "sim_class s")
     (simp_all add: same_setup_def getAsubdiag_def getAsubdiag_b_def getAsubdiag_e_def
        getAsubdiag_h_def getAsubdiag_j_def assert_tInd_def nT_def cong: if_cong)

lemma same_setup_getRHS:
  assumes "same_setup s s'"
  shows "getRHS s' k = getRHS s k"
proof -
  note st = same_setup_getSourceTerm[OF assms]
  from assms show ?thesis
    by (cases "sim_class s")
       (simp_all add: getRHS_def getRHS_b_def getRHS_e_def getRHS_h_def getRHS_j_def
          st same_setup_def cong: if_cong)
qed

lemma same_setup_getInitialFields: "same_setup s s' \<Longrightarrow> getInitialFields s' = getInitialFields s"
  by (simp add: same_setup_def getInitialFields_def the_survey_def field_size_def)

lemma collect_Inr_map: "collect (\<lambda>x. Inr (g x)) xs = Inr (map g xs)"
  by (induction xs) (simp_all add: bind_err_def)

lemma list_index_Some: "list_index xs x = Some i \<Longrightarrow> i < length xs \<and> xs ! i = x"
  by (induction xs arbitrary: i) (auto split: if_splits)

lemma map_of_dict_set: "map_of (dict_set d k v) k' = (if k' = k then Some v else map_of d k')"
  by (induction d) auto

lemma getAdiag_cong:
  "j < length (time_steps s) \<Longrightarrow> j' < length (time_steps s) \<Longrightarrow>
   time_steps s ! j = time_steps s ! j' \<Longrightarrow> getAdiag s (int j) = getAdiag s (int j')"
  by (cases "sim_class s")
     (simp_all add: getAdiag_defs assert_tInd_def bind_err_def py_get_def nT_def Let_def)

lemma getAdiag_in_range: "j < length (time_steps s) \<Longrightarrow> \<exists>A. getAdiag s (int j) = Inr A"
  by (cases "sim_class s")
     (simp_all add: getAdiag_defs assert_tInd_def bind_err_def py_get_def nT_def Let_def)

lemma for_each_upt_inv:
  assumes "for_each b [i..<n] st = Inr st'" and "i \<le> n" and "P i st"
    and "\<And>j st st'. i \<le> j \<Longrightarrow> j < n \<Longrightarrow> P j st \<Longrightarrow> b j st = Inr st' \<Longrightarrow> P (Suc j) st'"
  shows "P n st'"
  using assms
proof (induction "n - i" arbitrary: i st)
  case 0
  then show ?case by simp
next
  case (Suc d)
  then have lt: "i < n" by simp
  then have up: "[i..<n] = i # [Suc i..<n]" by (simp add: upt_conv_Cons)
  from Suc.prems(1) obtain st1 where s1: "b i st = Inr st1"
    and r: "for_each b [Suc i..<n] st1 = Inr st'"
    by (auto simp: up bind_err_Inr_iff)
  have p1: "P (Suc i) st1" using Suc.prems(4)[of i st st1] lt Suc.prems(3) s1 by simp
  show ?case
  proof (rule Suc.hyps(1)[OF _ r _ p1])
    show "d = n - Suc i" using Suc.hyps(2) by simp
    show "Suc i \<le> n" using lt by simp
  next
    fix j st0 st2
    assume "Suc i \<le> j" "j < n" "P j st0" "b j st0 = Inr st2"
    then show "P (Suc j) st2" using Suc.prems(4)[of j st0 st2] by simp
  qed
qed

lemma clean_heap_length [simp]: "length (heap (clean h s)) = length (heap s)"
  by (simp add: clean_def)

lemma clean_heap_fmat [simp]: "fmat (heap (clean h s) ! h') = fmat (heap s ! h')"
  by (cases "h < length (heap s)") (simp_all add: clean_def nth_list_update list_update_beyond)

lemma run_start_step:
  "run_start th ts (Suc j) = (if \<bar>ts ! Suc j - ts ! j\<bar> > th then Suc j else run_start th ts j)"
  by simp

lemma in_flight_after:
  assumes k: "k < length (time_steps s0)"
    and ss: "same_setup s0 s"
    and md: "forward_only s0 \<or> (s = s0 \<and> dict_ok s0)"
    and a: "case k of 0 \<Rightarrow> a = None | Suc j \<Rightarrow> holds_factor s0 j a s"
    and st: "factor_if_none k (time_steps s ! k) (fields_clean_if_changed k (time_steps s ! k) (a, s)) = Inr (a2, s2)"
  shows "holds_factor s0 k a2 s2 \<and> same_setup s0 s2 \<and> (forward_only s0 \<or> s2 = s0)"
proof -
  have ts: "time_steps s = time_steps s0" "dt_threshold s = dt_threshold s0"
    "forward_only s = forward_only s0"
    using ss by (simp_all add: same_setup_def)
  let ?th = "dt_threshold s0" and ?ts = "time_steps s0"
  define keep where "keep \<longleftrightarrow> (\<exists>h. a = Some h) \<and> \<not> (k > 0 \<and> \<bar>?ts ! k - ?ts ! (k - 1)\<bar> > ?th)"
  show ?thesis
  proof (cases keep)
    case True
    then obtain h where h: "a = Some h" and nc: "\<not> (k > 0 \<and> \<bar>?ts ! k - ?ts ! (k - 1)\<bar> > ?th)"
      by (auto simp: keep_def)
    from h a obtain j where kj: "k = Suc j" and hf: "holds_factor s0 j a s"
      by (cases k) auto
    from nc kj have rs: "run_start ?th ?ts k = run_start ?th ?ts j" by simp
    from st h nc have "a2 = a" "s2 = s"
      by (auto simp: fields_clean_if_changed_def factor_if_none_def ts)
    with hf rs ss md show ?thesis by (auto simp: holds_factor_def)
  next
    case False
    define s1 where "s1 = snd (fields_clean_if_changed k (time_steps s ! k) (a, s))"
    have c: "fields_clean_if_changed k (time_steps s ! k) (a, s) = (None, s1)"
      using False unfolding s1_def keep_def
      by (auto simp: fields_clean_if_changed_def ts split: option.splits)
    have s1: "same_setup s s1" "forward_only s0 \<or> s1 = s"
      unfolding s1_def
      by (auto simp: fields_clean_if_changed_def ts same_setup_clean split: option.splits)
    have rs: "run_start ?th ?ts k = k"
    proof (cases k)
      case 0 then show ?thesis by simp
    next
      case (Suc j)
      with a obtain h where "a = Some h" by (auto simp: holds_factor_def)
      with False Suc show ?thesis by (auto simp: keep_def)
    qed
    have ss1: "same_setup s0 s1" using ss s1(1) by (rule same_setup_trans)
    show ?thesis
    proof (cases "forward_only s0")
      case True
      then have f1: "forward_only s1" using ss1 by (simp add: same_setup_def)
      from st c f1 obtain A where A: "getAdiag s1 (int k) = Inr A"
        and r: "a2 = Some (length (heap s1))" "s2 = snd (solver A s1)"
        by (auto simp: factor_if_none_def bind_err_Inr_iff solver_def Let_def)
      have "getAdiag s0 (int k) = Inr A" using A same_setup_getAdiag[OF ss1] by simp
      moreover have "same_setup s0 s2" using r ss1 same_setup_solver[of s1 A]
        by (auto intro: same_setup_trans)
      ultimately show ?thesis using r True rs
        by (simp add: holds_factor_def solver_def)
    next
      case False
      with s1 md have e: "s1 = s" "s = s0" "dict_ok s0" by auto
      from e(3) k obtain d h where d: "Ainv s0 = Some d"
        and h: "map_of d (?ts ! k) = Some (Some h)" "h < length (heap s0)"
               "getAdiag s0 (int k) = Inr (fmat (heap s0 ! h))"
        by (auto simp: dict_ok_def)
      from st c False e d h have "a2 = Some h" "s2 = s"
        by (auto simp: factor_if_none_def bind_err_Inr_iff dict_get_def ts)
      with h e ss rs False show ?thesis by (simp add: holds_factor_def)
    qed
  qed
qed

lemma fields_step_inv:
  assumes k: "k < length (time_steps s0)"
    and inv: "fields_inv s0 k st"
    and md: "forward_only s0 \<or> dict_ok s0"
    and step: "fields_step k st = Inr st'"
  shows "fields_inv s0 (Suc k) st'"
proof -
  obtain a f s where st: "st = (a, f, s)" by (cases st)
  from inv st have ss: "same_setup s0 s" and len: "length f = length (time_steps s0) + 1"
    and md': "forward_only s0 \<or> s = s0"
    and a: "case k of 0 \<Rightarrow> a = None | Suc j \<Rightarrow> holds_factor s0 j a s"
    and rec: "\<forall>j<k. recurrence_at s0 f j"
    by (auto simp: fields_inv_def)
  from step st obtain a2 s2 rhs As sol where
    fa: "factor_if_none k (time_steps s ! k) (fields_clean_if_changed k (time_steps s ! k) (a, s)) = Inr (a2, s2)"
    and rhs: "getRHS s2 (int k + 1) = Inr rhs"
    and As: "getAsubdiag s2 (int k) = Inr As"
    and sol: "collect (\<lambda>(r, ui). apply_opt s2 a2 (vsub r (mat_vec As ui))) (zip rhs (f ! k)) = Inr sol"
    and st': "st' = (a2, f[k + 1 := sol], s2)"
    using len k
    by (auto simp: fields_step_def bind_err_Inr_iff Let_def nth_err_def split: if_splits)
  from in_flight_after[OF k ss _ a fa] md md'
  have hf: "holds_factor s0 k a2 s2" and ss2: "same_setup s0 s2"
    and md2: "forward_only s0 \<or> s2 = s0"
    by auto
  from hf obtain h where h: "a2 = Some h"
    and A: "getAdiag s0 (int (run_start (dt_threshold s0) (time_steps s0) k)) = Inr (fmat (heap s2 ! h))"
    by (auto simp: holds_factor_def)
  have "(\<lambda>(r, ui). apply_opt s2 a2 (vsub r (mat_vec As ui)))
      = (\<lambda>x. Inr ((\<lambda>(r, ui). solve s0 (fmat (heap s2 ! h)) (vsub r (mat_vec As ui))) x))"
    using h ss2 by (auto simp: fun_eq_iff apply_opt_def apply_factor_def same_setup_def)
  with sol have sol': "sol = map2 (\<lambda>r u. solve s0 (fmat (heap s2 ! h)) (vsub r (mat_vec As u))) rhs (f ! k)"
    by (simp add: collect_Inr_map)
  have new: "recurrence_at s0 (f[k + 1 := sol]) k"
    unfolding recurrence_at_def
    using A rhs As sol' len k same_setup_getRHS[OF ss2] same_setup_getAsubdiag[OF ss2]
    by (auto simp: nth_list_update)
  have old: "recurrence_at s0 (f[k + 1 := sol]) j" if "j < k" for j
    using rec that unfolding recurrence_at_def by (auto simp: nth_list_update)
  have "\<forall>j<Suc k. recurrence_at s0 (f[k + 1 := sol]) j"
    using new old by (auto simp: less_Suc_eq)
  then show ?thesis
    unfolding st' fields_inv_def using ss2 len md2 hf by simp
qed

lemma clean_sel [simp]:
  "Ainv (clean h s) = Ainv s" "ATinv (clean h s) = ATinv s"
  "Adcinv_cache (clean h s) = Adcinv_cache s"
  by (simp_all add: clean_def)

lemma clean_cleaned_mono:
  "h' < length (heap s) \<Longrightarrow> cleaned (heap s ! h') \<Longrightarrow> cleaned (heap (clean h s) ! h')"
  by (cases "h' = h") (simp_all add: clean_def)

lemma clean_cleaned_self: "h < length (heap s) \<Longrightarrow> cleaned (heap (clean h s) ! h)"
  by (simp add: clean_def)

lemma clean_values_frame:
  "clean_values d s = (r, s') \<Longrightarrow>
   same_setup s s' \<and> Ainv s' = Ainv s \<and> ATinv s' = ATinv s
   \<and> Adcinv_cache s' = Adcinv_cache s \<and> length (heap s') = length (heap s)
   \<and> map fmat (heap s') = map fmat (heap s)
   \<and> (\<forall>h<length (heap s). cleaned (heap s ! h) \<longrightarrow> cleaned (heap s' ! h))"
proof (induction d s arbitrary: r s' rule: clean_values.induct)
  case (1 s)
  then show ?case by simp
next
  case (2 k kvs s)
  then show ?case by simp
next
  case (3 k h kvs s)
  obtain r1 s1 where c: "clean_values kvs (clean h s) = (r1, s1)"
    by (cases "clean_values kvs (clean h s)")
  from 3(2) c have s': "s' = s1" by (auto split: sum.splits)
  from 3(1)[OF c] have ih: "same_setup (clean h s) s1" "Ainv s1 = Ainv s" "ATinv s1 = ATinv s"
    "Adcinv_cache s1 = Adcinv_cache s" "length (heap s1) = length (heap s)"
    "map fmat (heap s1) = map fmat (heap (clean h s))"
    "\<forall>h'<length (heap s). cleaned (heap (clean h s) ! h') \<longrightarrow> cleaned (heap s1 ! h')"
    by simp_all
  have "map fmat (heap (clean h s)) = map fmat (heap s)"
    by (rule nth_equalityI) simp_all
  with ih show ?case unfolding s'
    by (auto intro: same_setup_trans[OF same_setup_clean] dest: clean_cleaned_mono)
qed

lemma clean_values_Inr:
  "clean_values d s = (Inr d', s') \<Longrightarrow>
   d' = map (\<lambda>(k, x). (k, None)) d
   \<and> (\<forall>(k, x)\<in>set d. \<exists>h. x = Some h \<and> (h < length (heap s) \<longrightarrow> cleaned (heap s' ! h)))"
proof (induction d s arbitrary: d' s' rule: clean_values.induct)
  case (1 s)
  then show ?case by simp
next
  case (2 k kvs s)
  then show ?case by simp
next
  case (3 k h kvs s)
  from 3(2) obtain d1 where c: "clean_values kvs (clean h s) = (Inr d1, s')" and d': "d' = (k, None) # d1"
    by (auto split: prod.splits sum.splits)
  from 3(1)[OF c] have ih: "d1 = map (\<lambda>(k, x). (k, None)) kvs"
    "\<forall>(k, x)\<in>set kvs. \<exists>h'. x = Some h' \<and> (h' < length (heap s) \<longrightarrow> cleaned (heap s' ! h'))"
    by simp_all
  from clean_values_frame[OF c] have "h < length (heap s) \<longrightarrow> cleaned (heap s' ! h)"
    by (auto simp: clean_cleaned_self)
  with ih d' show ?case by auto
qed

lemma factor_Ainv_step:
  assumes "factor_Ainv dt s = Inr s'"
  shows "\<exists>j d A. j < length (time_steps s) \<and> time_steps s ! j = dt
           \<and> getAdiag s (int j) = Inr A \<and> Ainv s = Some d
           \<and> s' = s\<lparr>heap := heap s @ [\<lparr>fmat = A, cleaned = False\<rparr>],
                    Ainv := Some (dict_set d dt (Some (length (heap s))))\<rparr>"
  using assms
  by (auto simp: factor_Ainv_def bind_err_Inr_iff solver_def Let_def
           split: option.splits dest: list_index_Some)

lemma for_each_factor_Ainv:
  assumes "for_each factor_Ainv ks s = Inr s'" and "distinct ks"
  shows "same_setup s s' \<and> ATinv s' = ATinv s \<and> Adcinv_cache s' = Adcinv_cache s
         \<and> (\<exists>news. heap s' = heap s @ news \<and> made_for False s ks news)
         \<and> (\<forall>d. Ainv s = Some d \<longrightarrow>
               (\<exists>d'. Ainv s' = Some d' \<and> points_to d' ks (length (heap s))
                  \<and> (\<forall>k. k \<notin> set ks \<longrightarrow> map_of d' k = map_of d k)))"
  using assms
proof (induction ks arbitrary: s)
  case Nil
  then show ?case by (simp add: made_for_def points_to_def)
next
  case (Cons k ks)
  from Cons.prems(1) obtain s1 where f1: "factor_Ainv k s = Inr s1"
    and r: "for_each factor_Ainv ks s1 = Inr s'"
    by (auto simp: bind_err_Inr_iff)
  from factor_Ainv_step[OF f1] obtain j d A where j: "j < length (time_steps s)"
    "time_steps s ! j = k" "getAdiag s (int j) = Inr A" and d: "Ainv s = Some d"
    and s1: "s1 = s\<lparr>heap := heap s @ [\<lparr>fmat = A, cleaned = False\<rparr>],
                    Ainv := Some (dict_set d k (Some (length (heap s))))\<rparr>"
    by blast
  have ss1: "same_setup s s1" by (simp add: s1 same_setup_def)
  from Cons.prems(2) have dk: "distinct ks" "k \<notin> set ks" by simp_all
  have s1f: "heap s1 = heap s @ [\<lparr>fmat = A, cleaned = False\<rparr>]"
    "Ainv s1 = Some (dict_set d k (Some (length (heap s))))"
    "ATinv s1 = ATinv s" "Adcinv_cache s1 = Adcinv_cache s"
    "length (heap s1) = Suc (length (heap s))"
    by (simp_all add: s1)
  from Cons.IH[OF r dk(1)] s1f(2) obtain news d' where
    ih: "same_setup s1 s'" "ATinv s' = ATinv s1" "Adcinv_cache s' = Adcinv_cache s1"
        "heap s' = heap s1 @ news" "made_for False s1 ks news"
        "Ainv s' = Some d'" "points_to d' ks (length (heap s1))"
        "\<forall>k'. k' \<notin> set ks \<longrightarrow> map_of d' k' = map_of (dict_set d k (Some (length (heap s)))) k'"
    by blast
  have mf: "made_for False s (k # ks) (\<lparr>fmat = A, cleaned = False\<rparr> # news)"
    using ih(5) j same_setup_getAdiag[OF ss1] ss1
    by (auto simp: made_for_def same_setup_def)
  have pt: "points_to d' (k # ks) (length (heap s))"
    unfolding points_to_def
  proof (intro allI impI)
    fix i assume "i < length (k # ks)"
    show "map_of d' ((k # ks) ! i) = Some (Some (length (heap s) + i))"
    proof (cases i)
      case 0
      then show ?thesis using ih(8) dk(2) by (simp add: map_of_dict_set)
    next
      case (Suc i')
      with \<open>i < length (k # ks)\<close> ih(7) show ?thesis by (simp add: points_to_def s1f)
    qed
  qed
  have rest: "\<forall>k'. k' \<notin> set (k # ks) \<longrightarrow> map_of d' k' = map_of d k'"
    using ih(8) by (simp add: map_of_dict_set)
  have "same_setup s s'" using ss1 ih(1) by (rule same_setup_trans)
  moreover have "heap s' = heap s @ (\<lparr>fmat = A, cleaned = False\<rparr> # news)"
    using ih(4) s1f(1) by simp
  ultimately show ?case
    using ih(2,3,6) s1f(3,4) mf pt rest d by auto
qed

lemma aged_refl [simp]: "aged hp hp"
  by (simp add: aged_def)

lemma aged_trans: "aged a b \<Longrightarrow> aged b c \<Longrightarrow> aged a c"
  by (auto simp: aged_def)

lemma all_cleaned_aged: "all_cleaned d hp \<Longrightarrow> aged hp hp' \<Longrightarrow> all_cleaned d hp'"
  by (fastforce simp: all_cleaned_def aged_def)

lemma all_None_fromkeys [simp]: "all_None (fromkeys ks)"
  by (auto simp: all_None_def fromkeys_def)

lemma distinct_np_unique [simp]: "distinct (np_unique xs)"
  by (simp add: np_unique_def)

lemma set_np_unique [simp]: "set (np_unique xs) = set xs"
  by (simp add: np_unique_def)

lemma clean_values_aged: "clean_values d s = (r, s') \<Longrightarrow> aged (heap s) (heap s')"
  using clean_values_frame[of d s r s'] by (simp add: aged_def)

lemma clean_values_all_cleaned: "clean_values d s = (Inr d', s') \<Longrightarrow> all_cleaned d (heap s')"
  using clean_values_Inr[of d s d' s'] clean_values_frame[of d s "Inr d'" s']
  by (auto simp: all_cleaned_def)

lemma clean_values_all_None: "clean_values d s = (Inr d', s') \<Longrightarrow> all_None d'"
  using clean_values_Inr[of d s d' s'] by (auto simp: all_None_def)

lemma clean_Ainv_result:
  assumes "clean_Ainv s = Inr s1"
  shows "same_setup (s\<lparr>time_steps := time_steps s1\<rparr>) s1
         \<and> time_steps s1 = (if Ainv s = None then rounded s else time_steps s)
         \<and> aged (heap s) (heap s1) \<and> ATinv s1 = ATinv s \<and> Adcinv_cache s1 = Adcinv_cache s
         \<and> (\<exists>d1. Ainv s1 = Some d1) \<and> (\<forall>d. Ainv s = Some d \<longrightarrow> all_cleaned d (heap s1))"
proof (cases "Ainv s")
  case None
  with assms show ?thesis
    by (auto simp: clean_Ainv_def Let_def rounded_def same_setup_def)
next
  case (Some d)
  with assms obtain d' s' where c: "clean_values d s = (Inr d', s')" and s1: "s1 = s'\<lparr>Ainv := Some d'\<rparr>"
    by (auto simp: clean_Ainv_def split: prod.splits sum.splits)
  from clean_values_frame[OF c] clean_values_aged[OF c] clean_values_all_cleaned[OF c] Some
  show ?thesis
    by (auto simp: s1 same_setup_def)
qed

lemma clean_ATinv_result:
  "same_setup s (clean_ATinv s) \<and> aged (heap s) (heap (clean_ATinv s))
   \<and> Ainv (clean_ATinv s) = Ainv s \<and> Adcinv_cache (clean_ATinv s) = Adcinv_cache s
   \<and> (\<exists>dT. ATinv (clean_ATinv s) = Some dT \<and> all_None dT)
   \<and> (\<forall>d. ATinv s = Some d \<and> list_all (\<lambda>(k, x). x \<noteq> None) d \<longrightarrow>
          all_cleaned d (heap (clean_ATinv s)))"
proof (cases "ATinv s")
  case None
  then show ?thesis by (simp add: clean_ATinv_def same_setup_def)
next
  case (Some d)
  obtain r s' where c: "clean_values d s = (r, s')" by (cases "clean_values d s")
  note fr = clean_values_frame[OF c] clean_values_aged[OF c]
  show ?thesis
  proof (cases r)
    case (Inl e)
    have "\<not> list_all (\<lambda>(k, x). x \<noteq> None) d"
      using c Inl
    proof (induction d s arbitrary: s' rule: clean_values.induct)
      case (3 k h kvs s)
      then show ?case by (auto split: prod.splits sum.splits)
    qed simp_all
    with Inl Some c fr show ?thesis
      by (auto simp: clean_ATinv_def same_setup_def)
  next
    case (Inr d')
    with c clean_values_all_cleaned[of d s d' s'] clean_values_all_None[of d s d' s'] Some fr
    show ?thesis
      by (auto simp: clean_ATinv_def same_setup_def)
  qed
qed

lemma same_setup_made_for: "same_setup s s' \<Longrightarrow> made_for tr s' ks news = made_for tr s ks news"
  using same_setup_getAdiag[of s s'] by (simp add: made_for_def same_setup_def)

lemma store_result:
  assumes "store_factorizations s = Inr s2"
  shows "same_setup (s\<lparr>time_steps := time_steps s2\<rparr>) s2
         \<and> time_steps s2 = (if Ainv s = None then rounded s else time_steps s)
         \<and> Adcinv_cache s2 = Adcinv_cache s
         \<and> (\<exists>hp news d dT.
               heap s2 = hp @ news \<and> aged (heap s) hp
               \<and> made_for False s2 (np_unique (time_steps s2)) news
               \<and> Ainv s2 = Some d \<and> points_to d (np_unique (time_steps s2)) (length hp)
               \<and> (\<forall>d0. Ainv s = Some d0 \<longrightarrow> all_cleaned d0 hp)
               \<and> ATinv s2 = Some dT \<and> all_None dT
               \<and> (\<forall>d0. ATinv s = Some d0 \<and> list_all (\<lambda>(k, x). x \<noteq> None) d0 \<longrightarrow> all_cleaned d0 hp))"
proof -
  from assms obtain s1 where c1: "clean_Ainv s = Inr s1"
    and fe: "for_each factor_Ainv (np_unique (time_steps (clean_ATinv s1))) (clean_ATinv s1) = Inr s2"
    by (auto simp: store_factorizations_def bind_err_Inr_iff Let_def)
  let ?sa = "clean_ATinv s1"
  note r1 = clean_Ainv_result[OF c1]
  note r2 = clean_ATinv_result[of s1]
  note r3 = for_each_factor_Ainv[OF fe distinct_np_unique]
  from r1 obtain d1 where d1: "Ainv s1 = Some d1" by blast
  from r2 obtain dT where dT: "ATinv ?sa = Some dT" "all_None dT" by blast
  from r3 obtain news where news: "heap s2 = heap ?sa @ news"
    "made_for False ?sa (np_unique (time_steps ?sa)) news" by blast
  from r3 r2 d1 obtain d' where d': "Ainv s2 = Some d'"
    "points_to d' (np_unique (time_steps ?sa)) (length (heap ?sa))" by auto
  have ss: "same_setup ?sa s2" using r3 by simp
  have ts: "time_steps s2 = time_steps s1" using ss r2 by (simp add: same_setup_def)
  have tsa: "time_steps ?sa = time_steps s2" using ss by (simp add: same_setup_def)
  have a: "same_setup (s\<lparr>time_steps := time_steps s2\<rparr>) s2"
    using r1 r2 ss ts by (auto simp: same_setup_def)
  have ag: "aged (heap s) (heap ?sa)" using r1 r2 by (auto intro: aged_trans)
  have ac: "\<forall>d0. Ainv s = Some d0 \<longrightarrow> all_cleaned d0 (heap ?sa)"
    using r1 r2 by (auto intro: all_cleaned_aged)
  have acT: "\<forall>d0. ATinv s = Some d0 \<and> list_all (\<lambda>(k, x). x \<noteq> None) d0 \<longrightarrow> all_cleaned d0 (heap ?sa)"
    using r1 r2 by auto
  have mf: "made_for False s2 (np_unique (time_steps s2)) news"
    using news(2) same_setup_made_for[OF ss] tsa by simp
  have "ATinv s2 = Some dT" using r3 dT by simp
  with a r1 r2 r3 ts news(1) ag mf d' tsa ac acT dT(2) show ?thesis
    by (intro conjI exI[of _ "heap ?sa"] exI[of _ news] exI[of _ d'] exI[of _ dT]) simp_all
qed

lemma made_for_nth:
  "made_for tr s ks news \<Longrightarrow> i < length ks \<Longrightarrow>
   length news = length ks \<and> \<not> cleaned (news ! i) \<and>
   (\<exists>j A. j < length (time_steps s) \<and> time_steps s ! j = ks ! i
      \<and> getAdiag s (int j) = Inr A \<and> fmat (news ! i) = (if tr then mat_T A else A))"
  by (auto simp: made_for_def list_all2_conv_all_nth)

lemma store_dict_ok:
  assumes "store_factorizations s = Inr s2"
  shows "dict_ok s2"
proof -
  from store_result[OF assms] obtain hp news d where
    h: "heap s2 = hp @ news" "made_for False s2 (np_unique (time_steps s2)) news"
       "Ainv s2 = Some d" "points_to d (np_unique (time_steps s2)) (length hp)"
    by blast
  let ?ks = "np_unique (time_steps s2)"
  have "\<exists>h. map_of d (time_steps s2 ! j) = Some (Some h) \<and> h < length (heap s2)
          \<and> getAdiag s2 (int j) = Inr (fmat (heap s2 ! h))"
    if j: "j < length (time_steps s2)" for j
  proof -
    from j have "time_steps s2 ! j \<in> set ?ks" by simp
    then obtain i where i: "i < length ?ks" "?ks ! i = time_steps s2 ! j"
      by (metis in_set_conv_nth)
    from made_for_nth[OF h(2) i(1)] obtain j' A where
      m: "length news = length ?ks" "j' < length (time_steps s2)"
         "time_steps s2 ! j' = ?ks ! i" "getAdiag s2 (int j') = Inr A" "fmat (news ! i) = A"
      by auto
    have "getAdiag s2 (int j) = getAdiag s2 (int j')"
      using getAdiag_cong[OF j m(2)] m(3) i(2) by simp
    moreover have "map_of d (time_steps s2 ! j) = Some (Some (length hp + i))"
      using h(4) i by (auto simp: points_to_def)
    moreover have "heap s2 ! (length hp + i) = news ! i" using h(1) by simp
    moreover have "length hp + i < length (heap s2)" using h(1) m(1) i(1) by simp
    ultimately show ?thesis using m(4,5) by auto
  qed
  with h(3) show ?thesis by (auto simp: dict_ok_def)
qed

lemma recurrence_at_iff:
  "recurrence_at s f k \<longleftrightarrow>
   solve_step s f (run_start (dt_threshold s) (time_steps s) k) k = Inr (f ! (k + 1))"
  by (auto simp: recurrence_at_def solve_step_def bind_err_Inr_iff)

lemma same_setup_recurrence:
  assumes "same_setup s s'"
  shows "recurrence_at s' f k = recurrence_at s f k"
  using assms same_setup_getAdiag[OF assms] same_setup_getRHS[OF assms]
    same_setup_getAsubdiag[OF assms]
  by (simp add: recurrence_at_def same_setup_def)

lemma clean_aged: "aged (heap s) (heap (clean h s))"
  unfolding aged_def
  by (auto intro: nth_equalityI clean_cleaned_mono)

lemma set_model_result:
  "model (set_model m s) = m \<and> same_setup (s\<lparr>model := m\<rparr>) (set_model m s)
   \<and> Ainv (set_model m s) = Ainv s \<and> ATinv (set_model m s) = ATinv s
   \<and> aged (heap s) (heap (set_model m s))"
  using clean_aged[of s]
  by (auto simp: set_model_def same_setup_def clean_def split: option.splits)

lemma fields_step_slice0:
  "fields_step k (a, f, s) = Inr (a', f', s') \<Longrightarrow> f' ! 0 = f ! 0"
  by (auto simp: fields_step_def bind_err_Inr_iff Let_def)

lemma fields_loop:
  assumes run: "for_each fields_step [0..<length (time_steps s2)] (None, f_init, s2) = Inr (a, f, s3)"
    and len: "length f_init = length (time_steps s2) + 1"
    and md: "forward_only s2 \<or> dict_ok s2"
  shows "fields_inv s2 (length (time_steps s2)) (a, f, s3) \<and> f ! 0 = f_init ! 0"
proof
  show "fields_inv s2 (length (time_steps s2)) (a, f, s3)"
  proof (rule for_each_upt_inv[OF run, where P = "fields_inv s2"])
    show "fields_inv s2 0 (None, f_init, s2)" using len by (simp add: fields_inv_def)
  next
    fix j st st'
    assume "j < length (time_steps s2)" "fields_inv s2 j st" "fields_step j st = Inr st'"
    then show "fields_inv s2 (Suc j) st'" using fields_step_inv[OF _ _ md] by blast
  qed simp
next
  have "(\<lambda>(a, f, s). f ! 0 = f_init ! 0) (a, f, s3)"
  proof (rule for_each_invariant[OF run])
    show "case (None, f_init, s2) of (a, f, s) \<Rightarrow> f ! 0 = f_init ! 0" by simp
  next
    fix i and st st' :: fields_state
    assume "case st of (a, f, s) \<Rightarrow> f ! 0 = f_init ! 0" "fields_step i st = Inr st'"
    then show "case st' of (a, f, s) \<Rightarrow> f ! 0 = f_init ! 0"
      by (cases st, cases st') (auto dest: fields_step_slice0)
  qed
  then show "f ! 0 = f_init ! 0" by simp
qed

lemma rounded_set_model [simp]: "rounded (set_model m s) = rounded s"
  by (auto simp: rounded_def set_model_def clean_def split: option.splits)

lemma fields_unfold:
  assumes "fields m s0 = Inr (f, s')"
  obtains f0 s2 a s3 where
    "getInitialFields (set_model m s0) = Inr f0"
    "if forward_only s0 then s2 = set_model m s0 else store_factorizations (set_model m s0) = Inr s2"
    "for_each fields_step [0..<length (time_steps s2)]
       (None, f0 # replicate (length (time_steps s2)) (map (\<lambda>_. zeros (field_size s2)) f0), s2)
     = Inr (a, f, s3)"
    "fields_finish (a, f, s3) = Inr (f, s')"
proof -
  have fo: "forward_only (set_model m s0) = forward_only s0"
    using set_model_result[of m s0] by (simp add: same_setup_def)
  from assms obtain f0 s2 st where
    1: "getInitialFields (set_model m s0) = Inr f0"
    and 2: "(if \<not> forward_only s0 then store_factorizations (set_model m s0) else Inr (set_model m s0)) = Inr s2"
    and 3: "for_each fields_step [0..<length (time_steps s2)]
       (None, f0 # replicate (length (time_steps s2)) (map (\<lambda>_. zeros (field_size s2)) f0), s2) = Inr st"
    and 4: "fields_finish st = Inr (f, s')"
    by (auto simp: fields_def Let_def bind_err_Inr_iff fo)
  obtain a f' s3 where st: "st = (a, f', s3)" by (cases st)
  from 4 st have "f' = f" by (auto simp: fields_finish_def split: if_splits option.splits)
  with 1 2 3 4 st that[of f0 s2 a s3] show thesis by (auto split: if_splits)
qed

lemma fields_result:
  assumes "fields m s0 = Inr (f, s')"
  shows "(\<forall>k<length (time_steps s'). recurrence_at s' f k)
         \<and> getInitialFields s' = Inr (f ! 0)
         \<and> length f = length (time_steps s') + 1
         \<and> same_setup (s0\<lparr>model := m, time_steps := time_steps s'\<rparr>) s'
         \<and> time_steps s' = (if forward_only s0 \<or> Ainv s0 \<noteq> None then time_steps s0 else rounded s0)
         \<and> (\<not> forward_only s0 \<longrightarrow> store_factorizations (set_model m s0) = Inr s')"
proof -
  from assms obtain f0 s2 a s3 where
    1: "getInitialFields (set_model m s0) = Inr f0"
    and 2: "if forward_only s0 then s2 = set_model m s0 else store_factorizations (set_model m s0) = Inr s2"
    and 3: "for_each fields_step [0..<length (time_steps s2)]
       (None, f0 # replicate (length (time_steps s2)) (map (\<lambda>_. zeros (field_size s2)) f0), s2)
     = Inr (a, f, s3)"
    and 4: "fields_finish (a, f, s3) = Inr (f, s')"
    by (rule fields_unfold)
  let ?s1 = "set_model m s0"
  note sm = set_model_result[of m s0]
  have fo: "forward_only ?s1 = forward_only s0" using sm by (simp add: same_setup_def)
  have s12: "same_setup (?s1\<lparr>time_steps := time_steps s2\<rparr>) s2"
    and ts2: "time_steps s2 = (if forward_only s0 \<or> Ainv s0 \<noteq> None then time_steps s0 else rounded s0)"
    and md: "forward_only s2 \<or> dict_ok s2"
  proof -
    show "same_setup (?s1\<lparr>time_steps := time_steps s2\<rparr>) s2"
      using 2 store_result[of ?s1 s2] by (auto simp: same_setup_def split: if_splits)
    show "time_steps s2 = (if forward_only s0 \<or> Ainv s0 \<noteq> None then time_steps s0 else rounded s0)"
      using 2 store_result[of ?s1 s2] sm by (auto simp: same_setup_def split: if_splits)
    show "forward_only s2 \<or> dict_ok s2"
      using 2 store_dict_ok[of ?s1 s2] fo by (auto split: if_splits)
  qed
  from fields_loop[OF 3 _ md]
  have inv: "fields_inv s2 (length (time_steps s2)) (a, f, s3)" and f0: "f ! 0 = f0" by simp_all
  from inv have ss23: "same_setup s2 s3" and len: "length f = length (time_steps s2) + 1"
    and keep: "forward_only s2 \<or> s3 = s2"
    and rec: "\<forall>j<length (time_steps s2). recurrence_at s2 f j"
    by (auto simp: fields_inv_def)
  have ss3: "same_setup s3 s'" and keep': "\<not> forward_only s3 \<longrightarrow> s' = s3"
    using 4 by (auto simp: fields_finish_def same_setup_clean split: if_splits option.splits)
  have ss2: "same_setup s2 s'" using ss23 ss3 by (rule same_setup_trans)
  have ts: "time_steps s' = time_steps s2" using ss2 by (simp add: same_setup_def)
  have "getInitialFields s' = getInitialFields ?s1"
    using s12 ss2 by (simp add: getInitialFields_def the_survey_def field_size_def same_setup_def)
  moreover have "same_setup (s0\<lparr>model := m, time_steps := time_steps s'\<rparr>) s'"
    using sm s12 ss2 ts by (simp add: same_setup_def)
  moreover have "\<not> forward_only s0 \<longrightarrow> store_factorizations ?s1 = Inr s'"
  proof
    assume nf: "\<not> forward_only s0"
    then have "\<not> forward_only s2" using s12 fo by (simp add: same_setup_def)
    with keep keep' ss23 have "s' = s2" by (auto simp: same_setup_def)
    with 2 nf show "store_factorizations ?s1 = Inr s'" by simp
  qed
  ultimately show ?thesis
    using rec same_setup_recurrence[OF ss2] 1 f0 len ts ts2 by simp
qed

lemma is_zero_zeros [simp]: "is_zero (zeros n)"
  by (simp add: is_zero_def zeros_def)

lemma is_zero_vadd: "is_zero u \<Longrightarrow> is_zero v \<Longrightarrow> is_zero (vadd u v)"
  by (auto simp: is_zero_def vadd_def elim!: in_set_zipE)

lemma is_zero_vsub: "is_zero u \<Longrightarrow> is_zero v \<Longrightarrow> is_zero (vsub u v)"
  by (auto simp: is_zero_def vsub_def elim!: in_set_zipE)

lemma is_zero_vscale: "is_zero u \<Longrightarrow> is_zero (vscale c u)"
  by (auto simp: is_zero_def vscale_def)

lemma sum_list_all_zero: "(\<And>x. x \<in> set xs \<Longrightarrow> x = (0::real)) \<Longrightarrow> sum_list xs = 0"
  by (induction xs) simp_all

lemma dot_zero: "is_zero v \<Longrightarrow> dot row v = 0"
  unfolding dot_def
  by (rule sum_list_all_zero) (auto simp: is_zero_def elim!: in_set_zipE)

lemma is_zero_mat_vec: "is_zero v \<Longrightarrow> is_zero (mat_vec A v)"
  by (simp add: is_zero_def mat_vec_def dot_zero[unfolded is_zero_def])

lemma is_zero_vadd_z: "is_zero u \<Longrightarrow> is_zero_z z \<Longrightarrow> is_zero (vadd_z u z)"
  by (cases z) (simp_all add: is_zero_vadd)

lemma collect_all:
  "collect g xs = Inr ys \<Longrightarrow> (\<And>x y. x \<in> set xs \<Longrightarrow> g x = Inr y \<Longrightarrow> P y) \<Longrightarrow> \<forall>y\<in>set ys. P y"
proof (induction xs arbitrary: ys)
  case Nil
  then show ?case by simp
next
  case (Cons x xs)
  from Cons.prems(1) obtain y ys' where "g x = Inr y" "collect g xs = Inr ys'" "ys = y # ys'"
    by (auto simp: bind_err_Inr_iff)
  with Cons.IH[of ys'] Cons.prems(2) show ?case by auto
qed

lemma getSourceTerm_zero:
  assumes "zero_sources s" and "getSourceTerm s k = Inr (s_m, s_e)"
  shows "(\<forall>c\<in>set s_m. is_zero c) \<and> (\<forall>c\<in>set s_e. is_zero c)"
proof -
  define pr where "pr = (if formulation_tag (sim_class s) = ''EB''
                         then (n_faces (mesh s), n_edges (mesh s))
                         else (n_edges (mesh s), n_faces (mesh s)))"
  obtain nm ne where pr: "pr = (nm, ne)" by (cases pr)
  define g where "g = (\<lambda>src :: source. bind_err (py_get (times s) k) (\<lambda>t.
               let (smi, sei) = src_eval src (model s) t
               in Inr (vadd_z (zeros nm) smi, vadd_z (zeros ne) sei)))"
  from assms(2) have "bind_err (the_survey s) (\<lambda>Srcs.
      bind_err (collect g Srcs) (\<lambda>cols. Inr (map fst cols, map snd cols))) = Inr (s_m, s_e)"
    unfolding getSourceTerm_def pr_def[symmetric] pr g_def by simp
  then obtain Srcs cols where sv: "survey s = Some Srcs" and c: "collect g Srcs = Inr cols"
    and r: "s_m = map fst cols" "s_e = map snd cols"
    by (auto simp: the_survey_def bind_err_Inr_iff split: option.splits)
  have "\<forall>y\<in>set cols. is_zero (fst y) \<and> is_zero (snd y)"
  proof (rule collect_all[OF c])
    fix src y
    assume "src \<in> set Srcs" and gy: "g src = Inr y"
    with assms(1) sv have z: "\<And>t. is_zero_z (fst (src_eval src (model s) t))"
      "\<And>t. is_zero_z (snd (src_eval src (model s) t))"
      by (auto simp: zero_sources_def)
    from gy obtain t where y: "y = (vadd_z (zeros nm) (fst (src_eval src (model s) t)),
                                    vadd_z (zeros ne) (snd (src_eval src (model s) t)))"
      by (auto simp: g_def bind_err_Inr_iff Let_def case_prod_beta)
    show "is_zero (fst y) \<and> is_zero (snd y)"
      unfolding y using z[of t] by (simp add: is_zero_vadd_z)
  qed
  with r show ?thesis by auto
qed

lemma map2_all:
  assumes "\<forall>x\<in>set xs. P x" and "\<forall>y\<in>set ys. Q y" and "\<And>x y. P x \<Longrightarrow> Q y \<Longrightarrow> R (f x y)"
  shows "\<forall>z\<in>set (map2 f xs ys). R z"
  using assms by (auto elim!: in_set_zipE)

lemma zip_all:
  "\<forall>x\<in>set xs. P x \<Longrightarrow> \<forall>y\<in>set ys. Q y \<Longrightarrow> \<forall>p\<in>set (zip xs ys). P (fst p) \<and> Q (snd p)"
  by (auto elim!: in_set_zipE)

lemma getRHS_zero:
  assumes z: "zero_sources s" and r: "getRHS s k = Inr rhs"
  shows "\<forall>c\<in>set rhs. is_zero c"
proof (cases "sim_class s")
  case Simulation3DMagneticFluxDensity
  with r obtain s_m s_e where st: "getSourceTerm s k = Inr (s_m, s_e)"
    and rhs: "rhs = (let r0 = map2 (\<lambda>se sm. vadd (mat_vec (C' s) (mat_vec (MeSigmaI' s) se)) sm) s_e s_m
                     in if makeASymmetric s then map (mat_vec (mat_T (MfMui' s))) r0 else r0)"
    by (auto simp: getRHS_def getRHS_b_def bind_err_Inr_iff Let_def split: if_splits)
  from getSourceTerm_zero[OF z st]
  have "\<forall>c\<in>set (map2 (\<lambda>se sm. vadd (mat_vec (C' s) (mat_vec (MeSigmaI' s) se)) sm) s_e s_m). is_zero c"
    by (intro map2_all[where P = is_zero and Q = is_zero]) (simp_all add: is_zero_vadd is_zero_mat_vec)
  then show ?thesis unfolding rhs by (auto simp: Let_def is_zero_mat_vec)
next
  case Simulation3DElectricField
  with r have "\<exists>dt s_m s_e x s_en1. getSourceTerm s k = Inr (s_m, s_e)
    \<and> getSourceTerm s (k - 1) = Inr (x, s_en1)
    \<and> rhs = map2 (\<lambda>(se, sen1) sm.
              vadd (vscale (- 1 / dt) (vsub se sen1))
                   (mat_vec (mat_mul (mat_T (C' s)) (MfMui' s)) sm)) (zip s_e s_en1) s_m"
    by (auto simp: getRHS_def getRHS_e_def bind_err_Inr_iff)
  then obtain dt s_m s_e x s_en1 where st: "getSourceTerm s k = Inr (s_m, s_e)"
    and st1: "getSourceTerm s (k - 1) = Inr (x, s_en1)"
    and rhs: "rhs = map2 (\<lambda>(se, sen1) sm.
              vadd (vscale (- 1 / dt) (vsub se sen1))
                   (mat_vec (mat_mul (mat_T (C' s)) (MfMui' s)) sm)) (zip s_e s_en1) s_m"
    by blast
  from getSourceTerm_zero[OF z st] getSourceTerm_zero[OF z st1]
  show ?thesis unfolding rhs
    by (intro map2_all[where P = "\<lambda>p. is_zero (fst p) \<and> is_zero (snd p)" and Q = is_zero] zip_all)
       (auto simp: is_zero_vadd is_zero_mat_vec is_zero_vscale is_zero_vsub)
next
  case Simulation3DMagneticField
  with r obtain s_m s_e where st: "getSourceTerm s k = Inr (s_m, s_e)"
    and rhs: "rhs = map2 (\<lambda>se sm. vadd (mat_vec (mat_T (C' s)) (mat_vec (MfRho' s) se)) sm) s_e s_m"
    by (auto simp: getRHS_def getRHS_h_def bind_err_Inr_iff)
  from getSourceTerm_zero[OF z st] show ?thesis unfolding rhs
    by (intro map2_all[where P = is_zero and Q = is_zero]) (simp_all add: is_zero_vadd is_zero_mat_vec)
next
  case Simulation3DCurrentDensity
  define k' where "k' = (if k = int (length (time_steps s)) then k - 1 else k)"
  from r Simulation3DCurrentDensity have "\<exists>dt s_m s_e x s_en1.
    getSourceTerm s k' = Inr (s_m, s_e)
    \<and> getSourceTerm s (k' - 1) = Inr (x, s_en1)
    \<and> rhs = (let r0 = map2 (\<lambda>(se, sen1) sm.
                       vadd (vscale (- 1 / dt) (vsub se sen1))
                            (mat_vec (mat_mul (C' s) (MeMuI' s)) sm)) (zip s_e s_en1) s_m
                     in if makeASymmetric s then map (mat_vec (mat_T (MfRho' s))) r0 else r0)"
    unfolding getRHS_def getRHS_j_def k'_def[symmetric] Let_def
    by (cases "makeASymmetric s") (auto simp: bind_err_Inr_iff simp del: map_eq_conv)
  then obtain dt s_m s_e x s_en1 where
    st: "getSourceTerm s k' = Inr (s_m, s_e)"
    and st1: "getSourceTerm s (k' - 1) = Inr (x, s_en1)"
    and rhs: "rhs = (let r0 = map2 (\<lambda>(se, sen1) sm.
                       vadd (vscale (- 1 / dt) (vsub se sen1))
                            (mat_vec (mat_mul (C' s) (MeMuI' s)) sm)) (zip s_e s_en1) s_m
                     in if makeASymmetric s then map (mat_vec (mat_T (MfRho' s))) r0 else r0)"
    by blast
  from getSourceTerm_zero[OF z st] getSourceTerm_zero[OF z st1]
  have "\<forall>c\<in>set (map2 (\<lambda>(se, sen1) sm.
                       vadd (vscale (- 1 / dt) (vsub se sen1))
                            (mat_vec (mat_mul (C' s) (MeMuI' s)) sm)) (zip s_e s_en1) s_m). is_zero c"
    by (intro map2_all[where P = "\<lambda>p. is_zero (fst p) \<and> is_zero (snd p)" and Q = is_zero] zip_all)
       (auto simp: is_zero_vadd is_zero_mat_vec is_zero_vscale is_zero_vsub)
  then show ?thesis unfolding rhs by (auto simp: Let_def is_zero_mat_vec)
qed

lemma getInitialFields_zero:
  assumes "zero_sources s" and "getInitialFields s = Inr f0"
  shows "\<forall>c\<in>set f0. is_zero c"
  using assms
  by (auto simp: getInitialFields_def the_survey_def bind_err_Inr_iff zero_sources_def
        is_zero_vadd_z split: option.splits)

lemma run_start_le: "run_start th ts k \<le> k"
  by (induction k) auto

lemma solve_step_cong:
  "getAdiag s (int j) = getAdiag s (int j') \<Longrightarrow> solve_step s f j k = solve_step s f j' k"
  by (simp add: solve_step_def)

lemma zero_preserving_ex_solve: "zero_preserving ex_solve"
  unfolding zero_preserving_def ex_solve_def is_zero_def
  by (auto split: list.splits)

subsection \<open>The recurrence of the forward stepper\<close>

text \<open>
  The rounding at work: with \<^verbatim>\<open>forward_only\<close> false and no dictionary \<^verbatim>\<open>Ainv\<close> yet, the
  single step \<open>1/4\<close> and \<^verbatim>\<open>dt_threshold = 1\<close> leave the step length \<open>0\<close> behind.
\<close>

lemma fields_rounds_step_to_zero:
  "map_sum id (\<lambda>(f, s'). time_steps s')
     (fields [1] (ex_sim Simulation3DElectricField [ex_source ''inductive'' 0] [1 / 4] 1 False))
   = Inr [0]"
  by code_simp

text \<open>
  C2, as the code has it. When \<^verbatim>\<open>fields(m)\<close> returns, every slice \<open>k + 1\<close> is the
  batched solve \<open>A\<^sup>-\<^sup>1 (RHS(k + 1) - Asubdiag(k) u\<^sub>k)\<close>, one operator \<open>A\<close> for the columns
  of all sources, where \<open>A\<close> is \<open>Adiag(j)\<close> for the first step \<open>j\<close> of the run of
  steps up to \<open>k\<close> whose consecutive lengths agree within \<^verbatim>\<open>dt_threshold\<close>; it is
  \<open>Adiag(k)\<close> whenever steps \<open>j\<close> and \<open>k\<close> have the same length. The step lengths
  that the call steps with, and leaves in \<^verbatim>\<open>time_steps\<close>, are \<open>stepping_lengths\<close>: those
  of the simulation, rounded through \<^verbatim>\<open>dt_threshold\<close> when \<^verbatim>\<open>forward_only\<close> is false and
  the call creates the dictionary \<^verbatim>\<open>Ainv\<close>. With a single step whose length is positive
  after that rounding, zero initial fields, zero source terms and a solver that maps
  zero to zero, the field at \<open>t\<^sub>1\<close> is zero. (A positive step shorter than half of
  \<^verbatim>\<open>dt_threshold\<close> is rounded to zero, see \<open>fields_rounds_step_to_zero\<close>; with a step
  of length zero numpy computes \<open>1/0 = inf\<close> and \<open>inf * 0 = nan\<close>, which the reals do
  not show; hence the positive length after rounding.)
\<close>

theorem fields_recurrence_and_zero:
  assumes "fields m s0 = Inr (f, s')"
  shows "(\<forall>k<length (time_steps s').
            solve_step s' f (run_start (dt_threshold s') (time_steps s') k) k = Inr (f ! (k + 1))
            \<and> (time_steps s' ! run_start (dt_threshold s') (time_steps s') k = time_steps s' ! k
                 \<longrightarrow> solve_step s' f k k = Inr (f ! (k + 1))))
         \<and> time_steps s' = stepping_lengths s0
         \<and> (length (time_steps s0) = 1 \<and> (\<forall>dt\<in>set (stepping_lengths s0). 0 < dt)
              \<and> zero_sources (s0\<lparr>model := m\<rparr>) \<and> zero_preserving (solve s0)
            \<longrightarrow> (\<forall>col\<in>set (f ! 1). is_zero col))"
proof (intro conjI allI impI)
  from fields_result[OF assms] have rec: "\<forall>k<length (time_steps s'). recurrence_at s' f k"
    by (rule conjunct1)
  fix k assume k: "k < length (time_steps s')"
  let ?j = "run_start (dt_threshold s') (time_steps s') k"
  show 1: "solve_step s' f ?j k = Inr (f ! (k + 1))"
    using rec k by (simp add: recurrence_at_iff)
  assume "time_steps s' ! ?j = time_steps s' ! k"
  moreover have "?j < length (time_steps s')" using run_start_le[of _ _ k] k by (rule le_less_trans)
  ultimately have "getAdiag s' (int ?j) = getAdiag s' (int k)"
    using getAdiag_cong[of ?j s' k] k by simp
  with 1 show "solve_step s' f k k = Inr (f ! (k + 1))"
    using solve_step_cong[of s' ?j k f k] by simp
next
  from fields_result[OF assms]
  have "time_steps s' = (if forward_only s0 \<or> Ainv s0 \<noteq> None then time_steps s0 else rounded s0)"
    by blast
  then show "time_steps s' = stepping_lengths s0" by (simp add: stepping_lengths_def)
next
  from fields_result[OF assms] have rec: "\<forall>k<length (time_steps s'). recurrence_at s' f k"
    and ini: "getInitialFields s' = Inr (f ! 0)"
    and ss: "same_setup (s0\<lparr>model := m, time_steps := time_steps s'\<rparr>) s'"
    and ts: "time_steps s' = (if forward_only s0 \<or> Ainv s0 \<noteq> None then time_steps s0 else rounded s0)"
    by blast+
  assume h: "length (time_steps s0) = 1 \<and> (\<forall>dt\<in>set (stepping_lengths s0). 0 < dt)
              \<and> zero_sources (s0\<lparr>model := m\<rparr>) \<and> zero_preserving (solve s0)"
  have len: "length (time_steps s') = 1" using ts h by (simp add: rounded_def)
  have zs: "zero_sources s'" using h ss by (simp add: zero_sources_def same_setup_def)
  have zp: "zero_preserving (solve s')" using h ss by (simp add: same_setup_def)
  have "recurrence_at s' f 0" using rec len by simp
  then obtain A rhs As where rhs: "getRHS s' 1 = Inr rhs"
    and f1: "f ! 1 = map2 (\<lambda>r u. solve s' A (vsub r (mat_vec As u))) rhs (f ! 0)"
    by (auto simp: recurrence_at_def)
  have z0: "\<forall>c\<in>set (f ! 0). is_zero c" using getInitialFields_zero[OF zs ini] .
  have zr: "\<forall>c\<in>set rhs. is_zero c" using getRHS_zero[OF zs rhs] .
  show "\<forall>col\<in>set (f ! 1). is_zero col"
    unfolding f1 using zr z0 zp
    by (intro map2_all[where P = is_zero and Q = is_zero])
       (auto simp: zero_preserving_def is_zero_vsub is_zero_mat_vec)
qed

theorem fields_recurrence_and_zero_witness:
  "\<exists>f s'. fields [1] (ex_sim Simulation3DElectricField [ex_source ''inductive'' 0] [2] 1 False) = Inr (f, s')
     \<and> length (time_steps (ex_sim Simulation3DElectricField [ex_source ''inductive'' 0] [2] 1 False)) = 1
     \<and> stepping_lengths (ex_sim Simulation3DElectricField [ex_source ''inductive'' 0] [2] 1 False) = [2]
     \<and> zero_sources ((ex_sim Simulation3DElectricField [ex_source ''inductive'' 0] [2] 1 False)\<lparr>model := [1]\<rparr>)
     \<and> zero_preserving (solve (ex_sim Simulation3DElectricField [ex_source ''inductive'' 0] [2] 1 False))
     \<and> time_steps s' = [2]
     \<and> time_steps s' ! run_start (dt_threshold s') (time_steps s') 0 = time_steps s' ! 0
     \<and> solve_step s' f 0 0 = Inr (f ! 1) \<and> is_zero (f ! 1 ! 0) \<and> f ! 1 = [[0]]"
proof -
  let ?s = "ex_sim Simulation3DElectricField [ex_source ''inductive'' 0] [2] 1 False"
  have run: "map_sum id fst (fields [1] ?s) = Inr [[[0]], [[0]]]"
    by code_simp
  then obtain f s' where fs: "fields [1] ?s = Inr (f, s')" and f: "f = [[[0]], [[0]]]"
    by (cases "fields [1] ?s") auto
  have sl: "stepping_lengths ?s = [2]" by code_simp
  have len: "length (time_steps ?s) = 1" by (simp add: ex_sim_def)
  have zs: "zero_sources (?s\<lparr>model := [1]\<rparr>)"
    by (simp add: zero_sources_def ex_sim_def ex_source_def is_zero_def)
  have zp: "zero_preserving (solve ?s)" by (simp add: ex_sim_def zero_preserving_ex_solve)
  from fields_recurrence_and_zero[OF fs] sl len zs zp
  have ts: "time_steps s' = [2]" and st: "solve_step s' f 0 0 = Inr (f ! 1)"
    and z: "\<forall>col\<in>set (f ! 1). is_zero col"
    by simp_all
  from z f have z0: "is_zero (f ! 1 ! 0)" by simp
  from fs f ts st z0 sl len zs zp show ?thesis by (intro exI[of _ f] exI[of _ s']) simp
qed

text \<open>
  C2 as stated fails: with the step lengths \<open>[1, 3/2]\<close> and \<open>dt_threshold = 1\<close> the
  second step reuses the factorization of \<open>Adiag(0)\<close> and returns \<open>2/3\<close>, where the
  solve with \<open>Adiag(1)\<close> gives \<open>4/5\<close>.
\<close>

theorem fields_keeps_factor_within_threshold:
  "map_sum id (\<lambda>(f, s'). (f ! 2, solve_step s' f 1 1))
     (fields [1] (ex_sim Simulation3DMagneticFluxDensity [ex_source ''inductive'' 1] [1, 3 / 2] 1 True))
   = Inr ([[2 / 3]], Inr [[4 / 5]])"
  by code_simp

subsection \<open>The stored factorizations\<close>





lemma fields_caches:
  assumes nf: "\<not> forward_only s0" and fs: "fields m s0 = Inr (f, s1)"
  shows "\<exists>hp news d dT.
     heap s1 = hp @ news \<and> aged (heap s0) hp
     \<and> made_for False s1 (np_unique (time_steps s1)) news
     \<and> Ainv s1 = Some d \<and> points_to d (np_unique (time_steps s1)) (length hp)
     \<and> (\<forall>d0. Ainv s0 = Some d0 \<longrightarrow> all_cleaned d0 hp)
     \<and> (\<forall>d0. ATinv s0 = Some d0 \<and> list_all (\<lambda>(k, x). x \<noteq> None) d0 \<longrightarrow> all_cleaned d0 hp)
     \<and> ATinv s1 = Some dT \<and> all_None dT"
proof -
  from fields_result[OF fs] nf have st: "store_factorizations (set_model m s0) = Inr s1" by blast
  note sm = set_model_result[of m s0]
  from store_result[OF st] obtain hp news d dT where
    h: "heap s1 = hp @ news" "aged (heap (set_model m s0)) hp"
       "made_for False s1 (np_unique (time_steps s1)) news"
       "Ainv s1 = Some d" "points_to d (np_unique (time_steps s1)) (length hp)"
       "\<forall>d0. Ainv (set_model m s0) = Some d0 \<longrightarrow> all_cleaned d0 hp"
       "ATinv s1 = Some dT" "all_None dT"
       "\<forall>d0. ATinv (set_model m s0) = Some d0 \<and> list_all (\<lambda>(k, x). x \<noteq> None) d0 \<longrightarrow> all_cleaned d0 hp"
    by blast
  have "aged (heap s0) hp" using sm h(2) by (blast intro: aged_trans)
  with h sm show ?thesis
    by (intro exI[of _ hp] exI[of _ news] exI[of _ d] exI[of _ dT]) simp
qed

lemma recurrence_unique:
  assumes lf: "length f = n + 1" and lg: "length g = n + 1" and z: "f ! 0 = g ! 0"
    and rf: "\<forall>k<n. recurrence_at s f k" and rg: "\<forall>k<n. recurrence_at s g k"
  shows "f = g"
proof (rule nth_equalityI)
  show "length f = length g" using lf lg by simp
next
  fix i assume "i < length f"
  then have "i \<le> n" using lf by simp
  then show "f ! i = g ! i"
  proof (induction i)
    case 0
    then show ?case using z by simp
  next
    case (Suc k)
    then have k: "k < n" and e: "f ! k = g ! k" by simp_all
    from rf rg k have "recurrence_at s f k" "recurrence_at s g k" by simp_all
    with e show ?case by (auto simp: recurrence_at_def)
  qed
qed

lemma fields_idempotent:
  assumes f1: "fields m s0 = Inr (f1, s1)" and f2: "fields m s1 = Inr (f2, s2)"
  shows "f2 = f1 \<and> same_setup s1 s2"
proof -
  note r1 = fields_result[OF f1] and r2 = fields_result[OF f2]
  from r1 have m1: "model s1 = m" and fo: "forward_only s1 = forward_only s0"
    by (auto simp: same_setup_def)
  have a1: "forward_only s1 \<or> Ainv s1 \<noteq> None"
  proof (cases "forward_only s0")
    case True
    with fo show ?thesis by simp
  next
    case False
    with r1 have "store_factorizations (set_model m s0) = Inr s1" by blast
    from store_result[OF this] show ?thesis by auto
  qed
  with r2 have ts: "time_steps s2 = time_steps s1" by auto
  from r2 have "same_setup (s1\<lparr>model := m, time_steps := time_steps s2\<rparr>) s2" by blast
  with ts m1 have ss: "same_setup s1 s2" by (simp add: same_setup_def)
  have rec2: "\<forall>k<length (time_steps s1). recurrence_at s1 f2 k"
    using r2 ts same_setup_recurrence[OF ss] by auto
  have rec1: "\<forall>k<length (time_steps s1). recurrence_at s1 f1 k" using r1 by blast
  have "getInitialFields s2 = getInitialFields s1" using ss by (rule same_setup_getInitialFields)
  with r1 r2 have "Inr (f2 ! 0) = (Inr (f1 ! 0) :: error + vec list)" by metis
  then have z: "f2 ! 0 = f1 ! 0" by simp
  have "length f1 = length (time_steps s1) + 1" "length f2 = length (time_steps s1) + 1"
    using r1 r2 ts by auto
  from recurrence_unique[OF this(2) this(1) z rec2 rec1] ss show ?thesis by simp
qed




text \<open>
  C4, as the code has it. With \<^verbatim>\<open>forward_only=False\<close>, a second call of \<^verbatim>\<open>fields\<close>
  with the same model returns the same fields. It does not reuse the stored
  factorizations: every factorization that the first call stored was valid after the
  first call and is cleaned by the second, which makes a new one for every distinct
  step length, for an unchanged model and for a new one alike.
\<close>

theorem second_fields_call_rebuilds:
  assumes nf: "\<not> forward_only s0" and f1: "fields m s0 = Inr (f1, s1)"
    and f2: "fields m' s1 = Inr (f2, s2)"
  shows "(m' = m \<longrightarrow> f2 = f1)
     \<and> (\<exists>d1 hp news d2.
          Ainv s1 = Some d1 \<and> heap s2 = hp @ news \<and> aged (heap s1) hp
          \<and> (\<forall>i<length (np_unique (time_steps s1)).
                \<exists>h. map_of d1 (np_unique (time_steps s1) ! i) = Some (Some h)
                   \<and> h < length (heap s1) \<and> \<not> cleaned (heap s1 ! h) \<and> cleaned (hp ! h))
          \<and> made_for False s2 (np_unique (time_steps s2)) news
          \<and> Ainv s2 = Some d2 \<and> points_to d2 (np_unique (time_steps s2)) (length hp))"
proof
  show "m' = m \<longrightarrow> f2 = f1" using fields_idempotent[OF f1] f2 by auto
next
  from fields_result[OF f1] nf have nf1: "\<not> forward_only s1" by (auto simp: same_setup_def)
  from fields_caches[OF nf f1] obtain hp1 news1 d1 where
    a: "heap s1 = hp1 @ news1" "made_for False s1 (np_unique (time_steps s1)) news1"
       "Ainv s1 = Some d1" "points_to d1 (np_unique (time_steps s1)) (length hp1)"
    by blast
  from fields_caches[OF nf1 f2] a(3) obtain hp news d2 where
    b: "heap s2 = hp @ news" "aged (heap s1) hp"
       "made_for False s2 (np_unique (time_steps s2)) news"
       "Ainv s2 = Some d2" "points_to d2 (np_unique (time_steps s2)) (length hp)"
       "all_cleaned d1 hp"
    by blast
  let ?ks = "np_unique (time_steps s1)"
  have "\<exists>h. map_of d1 (?ks ! i) = Some (Some h) \<and> h < length (heap s1)
            \<and> \<not> cleaned (heap s1 ! h) \<and> cleaned (hp ! h)" if i: "i < length ?ks" for i
  proof -
    let ?h = "length hp1 + i"
    from made_for_nth[OF a(2) i] have n: "length news1 = length ?ks" "\<not> cleaned (news1 ! i)"
      by simp_all
    have m: "map_of d1 (?ks ! i) = Some (Some ?h)" using a(4) i by (simp add: points_to_def)
    have lt: "?h < length (heap s1)" using a(1) n(1) i by simp
    have nc: "\<not> cleaned (heap s1 ! ?h)" using a(1) n(2) by simp
    from m have "(?ks ! i, Some ?h) \<in> set d1" by (rule map_of_SomeD)
    with b(6) lt b(2) have "cleaned (hp ! ?h)" by (fastforce simp: all_cleaned_def aged_def)
    with m lt nc show ?thesis by blast
  qed
  with a(3) b show "\<exists>d1 hp news d2.
          Ainv s1 = Some d1 \<and> heap s2 = hp @ news \<and> aged (heap s1) hp
          \<and> (\<forall>i<length (np_unique (time_steps s1)).
                \<exists>h. map_of d1 (np_unique (time_steps s1) ! i) = Some (Some h)
                   \<and> h < length (heap s1) \<and> \<not> cleaned (heap s1 ! h) \<and> cleaned (hp ! h))
          \<and> made_for False s2 (np_unique (time_steps s2)) news
          \<and> Ainv s2 = Some d2 \<and> points_to d2 (np_unique (time_steps s2)) (length hp)"
    by (intro exI[of _ d1] exI[of _ hp] exI[of _ news] exI[of _ d2]) simp
qed

theorem second_fields_call_rebuilds_witness:
  "\<exists>f1 s1 f2 s2.
     \<not> forward_only (ex_sim Simulation3DMagneticFluxDensity [ex_source ''inductive'' 1] [1, 3 / 2] (1 / 2) False)
     \<and> fields [1] (ex_sim Simulation3DMagneticFluxDensity [ex_source ''inductive'' 1] [1, 3 / 2] (1 / 2) False)
         = Inr (f1, s1)
     \<and> fields [1] s1 = Inr (f2, s2)
     \<and> f1 = [[[0]], [[1 / 2]], [[2 / 3]]] \<and> f2 = f1
     \<and> map cleaned (heap s1) = [False, False]
     \<and> map cleaned (heap s2) = [True, True, False, False]
     \<and> (\<exists>d1 hp news d2.
          Ainv s1 = Some d1 \<and> heap s2 = hp @ news \<and> aged (heap s1) hp
          \<and> made_for False s2 (np_unique (time_steps s2)) news
          \<and> Ainv s2 = Some d2 \<and> points_to d2 (np_unique (time_steps s2)) (length hp))"
proof -
  let ?s = "ex_sim Simulation3DMagneticFluxDensity [ex_source ''inductive'' 1] [1, 3 / 2] (1 / 2) False"
  have nf: "\<not> forward_only ?s" by (simp add: ex_sim_def)
  have run: "map_sum id (\<lambda>((f1, s1), (f2, s2)). (f1, map cleaned (heap s1), map cleaned (heap s2)))
               (fields_twice [1] [1] ?s)
             = Inr ([[[0]], [[1 / 2]], [[2 / 3]]], [False, False], [True, True, False, False])"
    by code_simp
  then obtain f1 s1 f2 s2 where r: "fields_twice [1] [1] ?s = Inr ((f1, s1), (f2, s2))"
    and c: "f1 = [[[0]], [[1 / 2]], [[2 / 3]]]" "map cleaned (heap s1) = [False, False]"
           "map cleaned (heap s2) = [True, True, False, False]"
    by (cases "fields_twice [1] [1] ?s") auto
  from r have f1: "fields [1] ?s = Inr (f1, s1)" and f2: "fields [1] s1 = Inr (f2, s2)"
    by (auto simp: fields_twice_def bind_err_Inr_iff)
  from second_fields_call_rebuilds[OF nf f1 f2]
  have "f2 = f1" and "\<exists>d1 hp news d2.
          Ainv s1 = Some d1 \<and> heap s2 = hp @ news \<and> aged (heap s1) hp
          \<and> made_for False s2 (np_unique (time_steps s2)) news
          \<and> Ainv s2 = Some d2 \<and> points_to d2 (np_unique (time_steps s2)) (length hp)"
    by blast+
  with nf f1 f2 c show ?thesis
    by (intro exI[of _ f1] exI[of _ s1] exI[of _ f2] exI[of _ s2] conjI) assumption+
qed

text \<open>
  C4 as stated fails: the second call with the same model leaves the two
  factorizations of the first call cleaned and the dictionary pointing at two new ones.
\<close>

theorem second_fields_call_refactors:
  "map_sum id (\<lambda>((f1, s1), (f2, s2)).
       (Ainv s1, map cleaned (heap s1), Ainv s2, map cleaned (heap s2)))
     (fields_twice [1] [1]
        (ex_sim Simulation3DMagneticFluxDensity [ex_source ''inductive'' 1] [1, 3 / 2] (1 / 2) False))
   = Inr (Some [(1, Some 0), (3 / 2, Some 1)], [False, False],
          Some [(1, Some 2), (3 / 2, Some 3)], [True, True, False, False])"
  by code_simp

subsection \<open>Galvanic sources in the adjoint sensitivity\<close>







lemma dc_frame_refl [simp]: "dc_frame s s"
  by (simp add: dc_frame_def)


lemma dc_frame_clean [simp]: "dc_frame s (clean h s)"
  by (simp add: dc_frame_def same_setup_clean)



























subsection \<open>Adjointness of the two sensitivities\<close>

text \<open>
  The collaborators of \<open>ex_sim_uv\<close> are adjoint to each other: the derivatives of the
  mass matrices are (below), the field derivative is the identity on either side with
  no model part, the receiver projects with \<open>P\<close> and \<open>P\<^sup>T\<close>, and the source does not
  depend on the model.
\<close>

lemma dot_map2_adjoint: "dot w (map2 (*) u v) = dot v (map2 (*) u w)"
proof (induction u arbitrary: v w)
  case Nil
  then show ?case by (simp add: dot_def)
next
  case (Cons a u)
  show ?case
  proof (cases v)
    case Nil
    then show ?thesis by (simp add: dot_def)
  next
    case v: (Cons b v')
    show ?thesis
    proof (cases w)
      case Nil
      then show ?thesis by (simp add: dot_def)
    next
      case w: (Cons c w')
      from Cons.IH[of w' v'] show ?thesis by (simp add: v w dot_def)
    qed
  qed
qed

lemma ex_physics_uv_adjoint:
  "dot w (dense n (MeSigmaDeriv ex_physics_uv m u v False)) = dot v (dense k (MeSigmaDeriv ex_physics_uv m u w True))"
  "dot w (dense n (MeSigmaIDeriv ex_physics_uv m u v False)) = dot v (dense k (MeSigmaIDeriv ex_physics_uv m u w True))"
  "dot w (dense n (MfRhoDeriv ex_physics_uv m u v False)) = dot v (dense k (MfRhoDeriv ex_physics_uv m u w True))"
  "dot w (dense n (MfRhoIDeriv ex_physics_uv m u v False)) = dot v (dense k (MfRhoIDeriv ex_physics_uv m u w True))"
  by (simp_all add: ex_physics_uv_def dense_def dot_map2_adjoint)

text \<open>
  C1 fails on the code. The adjoint test of the repository, on the flux-density class
  with two steps of length 1 and one source with one receiver: when the receiver weights
  the three time nodes by \<open>[1, 1, 1]\<close>, \<open>\<langle>d, Jvec(m, v)\<rangle> = -1/4\<close> and
  \<open>\<langle>v, Jtvec(m, d)\<rangle> = -3/4\<close>. The two agree for a receiver that reads the middle node
  only; for one that reads the last node only \<^verbatim>\<open>Jvec\<close> returns \<open>0\<close>. The forward loop
  stores \<^verbatim>\<open>df_dm_v\<close> at the time nodes \<open>0 .. nT - 1\<close> and never at node \<open>nT\<close>, which
  \<^verbatim>\<open>Jtvec\<close> back-projects like every other node.
\<close>

theorem Jvec_omits_last_time_node:
  "JvecVsJtvecTest [1] [1] [1]
     (ex_sim_uv Simulation3DMagneticFluxDensity [ex_source_rx ''inductive'' 1 [[1, 1, 1]] 0] [1, 1] 1 True)
   = Inr (- (1 / 4), - (3 / 4))
   \<and> JvecVsJtvecTest [1] [1] [1]
     (ex_sim_uv Simulation3DMagneticFluxDensity [ex_source_rx ''inductive'' 1 [[0, 1, 0]] 0] [1, 1] 1 True)
   = Inr (- (1 / 4), - (1 / 4))
   \<and> JvecVsJtvecTest [1] [1] [1]
     (ex_sim_uv Simulation3DMagneticFluxDensity [ex_source_rx ''inductive'' 1 [[0, 0, 1]] 0] [1, 1] 1 True)
   = Inr (0, - (1 / 2))"
  by code_simp

end
